theory Spec2Isabelle
  imports Complex_Main
begin

section \<open>JavaScript strings\<close>

text \<open>
  A JavaScript string is a sequence of UTF-16 code units; a code unit is modelled as a
  natural number below 65536. \<open>js\<close> embeds an ASCII literal. The string methods used by
  the plugin (\<open>startsWith\<close>, \<open>indexOf\<close>, \<open>substring\<close>, \<open>split\<close>, \<open>join\<close>, \<open>trim\<close>) are
  written out with the clamping JavaScript applies to out-of-range indices.
\<close>

type_synonym jsstring = "nat list"

definition js :: "string \<Rightarrow> jsstring" where
  "js s = map of_char s"

definition startsWith :: "'a list \<Rightarrow> 'a list \<Rightarrow> bool" where
  "startsWith s p = (take (length p) s = p)"

fun indexOfAux :: "'a list \<Rightarrow> 'a list \<Rightarrow> nat \<Rightarrow> nat option" where
  "indexOfAux p [] i = (if p = [] then Some i else None)"
| "indexOfAux p (c # cs) i =
     (if startsWith (c # cs) p then Some i else indexOfAux p cs (Suc i))"

text \<open>\<open>s.indexOf(p, from)\<close>; \<open>None\<close> stands for the result \<open>-1\<close>.\<close>

definition indexOf :: "'a list \<Rightarrow> 'a list \<Rightarrow> nat \<Rightarrow> nat option" where
  "indexOf s p from = indexOfAux p (drop from s) (min from (length s))"

text \<open>\<open>s.substring(a, b)\<close>: both indices are clamped to the length and swapped when \<open>a > b\<close>.\<close>

definition substring :: "'a list \<Rightarrow> nat \<Rightarrow> nat \<Rightarrow> 'a list" where
  "substring s a b =
     (let a' = min a (length s); b' = min b (length s)
      in take (max a' b' - min a' b') (drop (min a' b') s))"

text \<open>\<open>s.substring(a)\<close>.\<close>

definition substringFrom :: "'a list \<Rightarrow> nat \<Rightarrow> 'a list" where
  "substringFrom s a = drop a s"

text \<open>\<open>s.split(d)\<close> for a one-character separator: never empty, \<open>''''.split(d) = ['''']\<close>.\<close>

fun splitOn :: "'a \<Rightarrow> 'a list \<Rightarrow> 'a list list" where
  "splitOn d [] = [[]]"
| "splitOn d (c # cs) =
     (if c = d then [] # splitOn d cs
      else (case splitOn d cs of [] \<Rightarrow> [[c]] | l # ls \<Rightarrow> (c # l) # ls))"

fun joinWith :: "'a \<Rightarrow> 'a list list \<Rightarrow> 'a list" where
  "joinWith d [] = []"
| "joinWith d [l] = l"
| "joinWith d (l # m # ls) = l @ d # joinWith d (m # ls)"

text \<open>
  The code units JavaScript counts as white space (\<open>WhiteSpace\<close> and \<open>LineTerminator\<close>):
  the set matched by \<open>\s\<close> and stripped by \<open>trim\<close>.
\<close>

definition isSpace :: "nat \<Rightarrow> bool" where
  "isSpace c = (c \<in> {9, 10, 11, 12, 13, 32, 160, 5760, 8232, 8233, 8239, 8287, 12288, 65279}
                \<or> (8192 \<le> c \<and> c \<le> 8202))"

definition trim :: "jsstring \<Rightarrow> jsstring" where
  "trim s = rev (dropWhile isSpace (rev (dropWhile isSpace s)))"

abbreviation NL :: nat where
  "NL \<equiv> 10"

section \<open>Front matter: merge and insert (metadata-generator.ts)\<close>

text \<open>
  \<open>colonKey line\<close> is the key the merge loops compute for a line: defined when
  \<open>line.indexOf(':') > 0\<close>, and then \<open>line.substring(0, colonIndex).trim()\<close>.
\<close>

definition colonKey :: "jsstring \<Rightarrow> jsstring option" where
  "colonKey line =
     (case indexOf line (js '':'') 0 of
        None \<Rightarrow> None
      | Some colonIndex \<Rightarrow>
          if colonIndex > 0 then Some (trim (substring line 0 colonIndex)) else None)"

text \<open>\<open>s.split('\n').filter(line => line.trim())\<close>.\<close>

definition nonBlankLines :: "jsstring \<Rightarrow> jsstring list" where
  "nonBlankLines s = filter (\<lambda>line. trim line \<noteq> []) (splitOn NL s)"

text \<open>The first loop of \<open>mergeMetadata\<close>, over the new lines; the state is \<open>(result, processedKeys)\<close>.\<close>

fun mergeNewLoop ::
  "jsstring list \<Rightarrow> jsstring list \<times> jsstring set \<Rightarrow> jsstring list \<times> jsstring set" where
  "mergeNewLoop [] (result, processedKeys) = (result, processedKeys)"
| "mergeNewLoop (newLine # rest) (result, processedKeys) =
     mergeNewLoop rest
       (result @ [newLine],
        (case colonKey newLine of
           Some key \<Rightarrow> insert key processedKeys
         | None \<Rightarrow> processedKeys))"

text \<open>The second loop, over the existing lines.\<close>

fun mergeExistingLoop ::
  "jsstring list \<Rightarrow> jsstring set \<Rightarrow> jsstring list \<Rightarrow> jsstring list" where
  "mergeExistingLoop [] processedKeys result = result"
| "mergeExistingLoop (existingLine # rest) processedKeys result =
     mergeExistingLoop rest processedKeys
       (case colonKey existingLine of
          Some key \<Rightarrow> if key \<in> processedKeys then result else result @ [existingLine]
        | None \<Rightarrow> result @ [existingLine])"

definition mergeMetadata :: "jsstring \<Rightarrow> jsstring \<Rightarrow> jsstring" where
  "mergeMetadata existing newMetadata =
     (let existingLines = nonBlankLines existing;
          newLines = nonBlankLines newMetadata;
          (result, processedKeys) = mergeNewLoop newLines ([], {})
      in joinWith NL (mergeExistingLoop existingLines processedKeys result))"

text \<open>
  \<open>insertMetadata\<close> reads the file, computes \<open>newContent\<close> and writes it back.
  \<open>insertMetadataContent\<close> is the computation of \<open>newContent\<close> from the text read.
\<close>

definition insertMetadataContent :: "jsstring \<Rightarrow> jsstring \<Rightarrow> bool \<Rightarrow> jsstring" where
  "insertMetadataContent content metadata replaceExisting =
     (if startsWith content (js ''---'') then
        (case indexOf content (js ''---'') 3 of
           Some endIndex \<Rightarrow>
             (if replaceExisting then
                js ''---\<newline>'' @ metadata @ js ''\<newline>---\<newline>''
                  @ substringFrom content (endIndex + 4)
              else
                (let existingMetadata = substring content 4 endIndex;
                     mergedMetadata = mergeMetadata existingMetadata metadata
                 in js ''---\<newline>'' @ mergedMetadata @ js ''\<newline>---\<newline>''
                      @ substringFrom content (endIndex + 4)))
         | None \<Rightarrow>
             js ''---\<newline>'' @ metadata @ js ''\<newline>---\<newline>\<newline>'' @ content)
      else js ''---\<newline>'' @ metadata @ js ''\<newline>---\<newline>\<newline>'' @ content)"

definition extractDocumentContent :: "jsstring \<Rightarrow> jsstring" where
  "extractDocumentContent content =
     (if startsWith content (js ''---'') then
        (case indexOf content (js ''---'') 3 of
           Some endIndex \<Rightarrow> trim (substringFrom content (endIndex + 4))
         | None \<Rightarrow> trim content)
      else trim content)"

text \<open>
  The text \<open>extractExistingMetadata\<close> computes from the content read; \<open>None\<close> is
  \<open>undefined\<close>.
\<close>

definition extractExistingMetadataContent :: "jsstring \<Rightarrow> jsstring option" where
  "extractExistingMetadataContent content =
     (if startsWith content (js ''---'') then
        (case indexOf content (js ''---'') 3 of
           Some endIndex \<Rightarrow> Some (trim (substring content 4 endIndex))
         | None \<Rightarrow> None)
      else None)"

section \<open>Regular expressions\<close>

text \<open>
  The regular expressions of the source are written as terms of \<open>rx\<close> and run by a
  backtracking matcher with the priorities of JavaScript: \<open>rxm r s\<close> lists every way \<open>r\<close>
  can match at state \<open>s\<close>, most preferred first, so the match JavaScript reports is the
  head of the list. A state is the text before the position (reversed), the text after
  it, and the captures made so far (most recent first). A greedy or lazy star refuses an
  iteration that consumes nothing, as the language does.
\<close>

datatype rx =
    Chr "nat \<Rightarrow> bool"
  | Eps
  | Seq rx rx
  | Alt rx rx
  | Star rx
  | StarLazy rx
  | Grp nat rx
  | Bos
  | Eos
  | Bol
  | Eol
  | WordB

type_synonym mstate = "jsstring \<times> jsstring \<times> (nat \<times> jsstring) list"

text \<open>\<open>\w\<close> is \<open>[A-Za-z0-9_]\<close>.\<close>

definition isWordChar :: "nat \<Rightarrow> bool" where
  "isWordChar c =
     ((48 \<le> c \<and> c \<le> 57) \<or> (65 \<le> c \<and> c \<le> 90) \<or> c = 95 \<or> (97 \<le> c \<and> c \<le> 122))"

definition isLineTerminator :: "nat \<Rightarrow> bool" where
  "isLineTerminator c = (c = 10 \<or> c = 13 \<or> c = 8232 \<or> c = 8233)"

definition remaining :: "mstate \<Rightarrow> nat" where
  "remaining s = length (fst (snd s))"

definition headIs :: "(nat \<Rightarrow> bool) \<Rightarrow> jsstring \<Rightarrow> bool" where
  "headIs P s = (case s of [] \<Rightarrow> False | c # _ \<Rightarrow> P c)"

function rxm :: "rx \<Rightarrow> mstate \<Rightarrow> mstate list" where
  "rxm (Chr P) s =
     (case fst (snd s) of
        [] \<Rightarrow> []
      | c # cs \<Rightarrow> if P c then [(c # fst s, cs, snd (snd s))] else [])"
| "rxm Eps s = [s]"
| "rxm (Seq r1 r2) s = concat (map (rxm r2) (rxm r1 s))"
| "rxm (Alt r1 r2) s = rxm r1 s @ rxm r2 s"
| "rxm (Star r) s =
     concat (map (\<lambda>s'. if remaining s' < remaining s then rxm (Star r) s' else [])
                 (rxm r s)) @ [s]"
| "rxm (StarLazy r) s =
     s # concat (map (\<lambda>s'. if remaining s' < remaining s then rxm (StarLazy r) s' else [])
                     (rxm r s))"
| "rxm (Grp n r) s =
     map (\<lambda>s'. (fst s', fst (snd s'),
                 (n, take (remaining s - remaining s') (fst (snd s))) # snd (snd s')))
         (rxm r s)"
| "rxm Bos s = (if fst s = [] then [s] else [])"
| "rxm Eos s = (if fst (snd s) = [] then [s] else [])"
| "rxm Bol s = (if fst s = [] \<or> headIs isLineTerminator (fst s) then [s] else [])"
| "rxm Eol s =
     (if fst (snd s) = [] \<or> headIs isLineTerminator (fst (snd s)) then [s] else [])"
| "rxm WordB s =
     (if headIs isWordChar (fst s) \<noteq> headIs isWordChar (fst (snd s)) then [s] else [])"
  by pat_completeness auto
termination
  by (relation "measures [\<lambda>(r, s). size r, \<lambda>(r, s). remaining s]") auto

fun lit :: "jsstring \<Rightarrow> rx" where
  "lit [] = Eps"
| "lit (c # cs) = Seq (Chr (\<lambda>x. x = c)) (lit cs)"

definition Plus :: "rx \<Rightarrow> rx" where
  "Plus r = Seq r (Star r)"

definition PlusLazy :: "rx \<Rightarrow> rx" where
  "PlusLazy r = Seq r (StarLazy r)"

definition Opt :: "rx \<Rightarrow> rx" where
  "Opt r = Alt r Eps"

fun seqs :: "rx list \<Rightarrow> rx" where
  "seqs [] = Eps"
| "seqs [r] = r"
| "seqs (r # q # rs) = Seq r (seqs (q # rs))"

text \<open>The value of capture group \<open>n\<close> (the groups read by the callbacks always take part).\<close>

definition group :: "(nat \<times> jsstring) list \<Rightarrow> nat \<Rightarrow> jsstring" where
  "group caps n = (case map_of caps n of Some v \<Rightarrow> v | None \<Rightarrow> [])"

text \<open>
  \<open>s.replace(/r/g, f)\<close>: the scan tries each position from left to right, replaces the
  match found there by \<open>f match captures\<close> and goes on after it; after an empty match it
  copies one code unit and goes on.
\<close>

function replaceLoop ::
  "rx \<Rightarrow> (jsstring \<Rightarrow> (nat \<times> jsstring) list \<Rightarrow> jsstring) \<Rightarrow> jsstring \<Rightarrow> jsstring \<Rightarrow> jsstring"
  where
  "replaceLoop r f b a =
     (case rxm r (b, a, []) of
        [] \<Rightarrow> (case a of [] \<Rightarrow> [] | x # xs \<Rightarrow> x # replaceLoop r f (x # b) xs)
      | s' # _ \<Rightarrow>
          (if remaining s' < length a
           then f (take (length a - remaining s') a) (snd (snd s'))
                  @ replaceLoop r f (fst s') (fst (snd s'))
           else f [] (snd (snd s'))
                  @ (case a of [] \<Rightarrow> [] | x # xs \<Rightarrow> x # replaceLoop r f (x # b) xs)))"
  by pat_completeness auto
termination
  by (relation "measure (\<lambda>(r, f, b, a). length a)") (auto simp: remaining_def)

declare replaceLoop.simps [simp del]

definition replaceAll ::
  "rx \<Rightarrow> (jsstring \<Rightarrow> (nat \<times> jsstring) list \<Rightarrow> jsstring) \<Rightarrow> jsstring \<Rightarrow> jsstring" where
  "replaceAll r f s = replaceLoop r f [] s"

text \<open>\<open>s.replace(/r/, f)\<close> without the \<open>g\<close> flag: only the leftmost match is replaced.\<close>

fun replaceFirstLoop ::
  "rx \<Rightarrow> (jsstring \<Rightarrow> (nat \<times> jsstring) list \<Rightarrow> jsstring) \<Rightarrow> jsstring \<Rightarrow> jsstring \<Rightarrow> jsstring"
  where
  "replaceFirstLoop r f b [] =
     (case rxm r (b, [], []) of [] \<Rightarrow> [] | s' # _ \<Rightarrow> f [] (snd (snd s')))"
| "replaceFirstLoop r f b (x # xs) =
     (case rxm r (b, x # xs, []) of
        [] \<Rightarrow> x # replaceFirstLoop r f (x # b) xs
      | s' # _ \<Rightarrow>
          f (take (length (x # xs) - remaining s') (x # xs)) (snd (snd s')) @ fst (snd s'))"

definition replaceFirst ::
  "rx \<Rightarrow> (jsstring \<Rightarrow> (nat \<times> jsstring) list \<Rightarrow> jsstring) \<Rightarrow> jsstring \<Rightarrow> jsstring" where
  "replaceFirst r f s = replaceFirstLoop r f [] s"

text \<open>\<open>(s.match(/r/g) || []).length\<close>: the number of matches the same scan finds.\<close>

function countLoop :: "rx \<Rightarrow> jsstring \<Rightarrow> jsstring \<Rightarrow> nat" where
  "countLoop r b a =
     (case rxm r (b, a, []) of
        [] \<Rightarrow> (case a of [] \<Rightarrow> 0 | x # xs \<Rightarrow> countLoop r (x # b) xs)
      | s' # _ \<Rightarrow>
          (if remaining s' < length a
           then Suc (countLoop r (fst s') (fst (snd s')))
           else Suc (case a of [] \<Rightarrow> 0 | x # xs \<Rightarrow> countLoop r (x # b) xs)))"
  by pat_completeness auto
termination
  by (relation "measure (\<lambda>(r, b, a). length a)") (auto simp: remaining_def)

declare countLoop.simps [simp del]

definition countMatches :: "rx \<Rightarrow> jsstring \<Rightarrow> nat" where
  "countMatches r s = countLoop r [] s"

text \<open>\<open>/r/.test(s)\<close>.\<close>

fun testLoop :: "rx \<Rightarrow> jsstring \<Rightarrow> jsstring \<Rightarrow> bool" where
  "testLoop r b [] = (rxm r (b, [], []) \<noteq> [])"
| "testLoop r b (x # xs) = (if rxm r (b, x # xs, []) \<noteq> [] then True else testLoop r (x # b) xs)"

definition test :: "rx \<Rightarrow> jsstring \<Rightarrow> bool" where
  "test r s = testLoop r [] s"

text \<open>
  \<open>toLowerCase\<close>: the ASCII letters are written out; the lower-casing of the other code
  units is the built-in Unicode table, passed in as \<open>lowerNonAscii\<close>.
\<close>

definition toLowerCase :: "(nat \<Rightarrow> jsstring) \<Rightarrow> jsstring \<Rightarrow> jsstring" where
  "toLowerCase lowerNonAscii s =
     concat (map (\<lambda>c. if 65 \<le> c \<and> c \<le> 90 then [c + 32]
                       else if c < 128 then [c] else lowerNonAscii c) s)"

section \<open>Thrown values\<close>

text \<open>
  What a \<open>throw\<close> or a rejected promise carries: an \<open>Error\<close> object with its message, or
  any other value, kept as the text \<open>String(value)\<close> gives. \<open>thrownMessage\<close> is
  \<open>error instanceof Error ? error.message : String(error)\<close>. A function that can throw
  returns \<open>thrown + 'a\<close>.
\<close>

datatype thrown = Error jsstring | NonError jsstring

fun thrownMessage :: "thrown \<Rightarrow> jsstring" where
  "thrownMessage (Error m) = m"
| "thrownMessage (NonError v) = v"

section \<open>Formatting the model output (ai-service.ts)\<close>

definition isHan :: "nat \<Rightarrow> bool" where
  "isHan c = (0x4E00 \<le> c \<and> c \<le> 0x9FFF)"

definition isKana :: "nat \<Rightarrow> bool" where
  "isKana c = ((0x3040 \<le> c \<and> c \<le> 0x309F) \<or> (0x30A0 \<le> c \<and> c \<le> 0x30FF))"

definition isHangul :: "nat \<Rightarrow> bool" where
  "isHangul c = (0xAC00 \<le> c \<and> c \<le> 0xD7AF)"

definition isCyrillic :: "nat \<Rightarrow> bool" where
  "isCyrillic c = (0x0400 \<le> c \<and> c \<le> 0x04FF)"

definition isQuote :: "nat \<Rightarrow> bool" where
  "isQuote c = (c = 34 \<or> c = 39)"

definition HYPHEN :: nat where
  "HYPHEN = 45"

text \<open>\<open>/[\s_]+/g\<close>\<close>

definition rxSpacesUnderscores :: rx where
  "rxSpacesUnderscores = Plus (Chr (\<lambda>c. isSpace c \<or> c = 95))"

text \<open>\<open>/[^\w\u4e00-\u9fff\u3040-\u309f\u30a0-\u30ff\uac00-\ud7af]/g\<close>\<close>

definition rxNotWordCjk :: rx where
  "rxNotWordCjk = Chr (\<lambda>c. \<not> (isWordChar c \<or> isHan c \<or> isKana c \<or> isHangul c))"

text \<open>\<open>/[^\w\-]/g\<close>\<close>

definition rxNotWordHyphen :: rx where
  "rxNotWordHyphen = Chr (\<lambda>c. \<not> (isWordChar c \<or> c = HYPHEN))"

text \<open>\<open>/-+/g\<close>\<close>

definition rxHyphens :: rx where
  "rxHyphens = Plus (Chr (\<lambda>c. c = HYPHEN))"

text \<open>\<open>/^-|-$/g\<close>\<close>

definition rxEdgeHyphen :: rx where
  "rxEdgeHyphen = Alt (Seq Bos (Chr (\<lambda>c. c = HYPHEN))) (Seq (Chr (\<lambda>c. c = HYPHEN)) Eos)"

definition formatSingleTag :: "(nat \<Rightarrow> jsstring) \<Rightarrow> jsstring \<Rightarrow> jsstring" where
  "formatSingleTag lowerNonAscii tagValue =
     (if tagValue = [] \<or> trim tagValue = [] then []
      else
        (let formattedTag = trim tagValue;
             hasChinese = test (Chr isHan) formattedTag
         in if hasChinese then
              replaceAll rxNotWordCjk (\<lambda>_ _. [])
                (replaceAll rxSpacesUnderscores (\<lambda>_ _. []) formattedTag)
            else
              replaceAll rxEdgeHyphen (\<lambda>_ _. [])
                (replaceAll rxHyphens (\<lambda>_ _. [HYPHEN])
                  (replaceAll rxNotWordHyphen (\<lambda>_ _. [HYPHEN])
                    (replaceAll rxSpacesUnderscores (\<lambda>_ _. [HYPHEN])
                      (toLowerCase lowerNonAscii formattedTag))))))"

text \<open>\<open>/tags:\s*\[([\s\S]*?)\]/gm\<close>\<close>

definition rxInlineTags :: rx where
  "rxInlineTags =
     seqs [lit (js ''tags:''), Star (Chr isSpace), Chr (\<lambda>c. c = 91),
           Grp 1 (StarLazy (Chr (\<lambda>c. True))), Chr (\<lambda>c. c = 93)]"

text \<open>\<open>/["']([^"'\n]*?)["']/g\<close>\<close>

definition rxQuotedTag :: rx where
  "rxQuotedTag =
     seqs [Chr isQuote, Grp 1 (StarLazy (Chr (\<lambda>c. \<not> isQuote c \<and> c \<noteq> NL))), Chr isQuote]"

text \<open>\<open>/tags:\s*\n(\s*-\s*[^\n]*\n?)*/gm\<close>\<close>

definition rxBlockTags :: rx where
  "rxBlockTags =
     seqs [lit (js ''tags:''), Star (Chr isSpace), Chr (\<lambda>c. c = NL),
           Star (Grp 1 (seqs [Star (Chr isSpace), Chr (\<lambda>c. c = HYPHEN), Star (Chr isSpace),
                              Star (Chr (\<lambda>c. c \<noteq> NL)), Opt (Chr (\<lambda>c. c = NL))]))]"

text \<open>\<open>/(\s*-\s*)["']([^"'\n]+?)["'](\n?)/g\<close>\<close>

definition rxBlockItem :: rx where
  "rxBlockItem =
     seqs [Grp 1 (seqs [Star (Chr isSpace), Chr (\<lambda>c. c = HYPHEN), Star (Chr isSpace)]),
           Chr isQuote, Grp 2 (PlusLazy (Chr (\<lambda>c. \<not> isQuote c \<and> c \<noteq> NL))), Chr isQuote,
           Grp 3 (Opt (Chr (\<lambda>c. c = NL)))]"

definition formatTagsForObsidian :: "(nat \<Rightarrow> jsstring) \<Rightarrow> jsstring \<Rightarrow> jsstring" where
  "formatTagsForObsidian lowerNonAscii metadata =
     replaceAll rxBlockTags
       (\<lambda>match _.
          replaceAll rxBlockItem
            (\<lambda>tagMatch caps.
               (let formattedTag = formatSingleTag lowerNonAscii (group caps 2)
                in if formattedTag \<noteq> []
                   then group caps 1 @ [34] @ formattedTag @ [34] @ group caps 3
                   else tagMatch))
            match)
       (replaceAll rxInlineTags
          (\<lambda>match caps.
             (let formattedTagsContent =
                    replaceAll rxQuotedTag
                      (\<lambda>tagMatch tcaps.
                         (let formattedTag = formatSingleTag lowerNonAscii (group tcaps 1)
                          in if formattedTag \<noteq> [] then [34] @ formattedTag @ [34]
                             else tagMatch))
                      (group caps 1)
              in js ''tags: ['' @ formattedTagsContent @ js '']''))
          metadata)"

text \<open>\<open>/^title:\s*["']([^"'\n]+)["']?$/gm\<close>\<close>

definition rxTitle :: rx where
  "rxTitle =
     seqs [Bol, lit (js ''title:''), Star (Chr isSpace), Chr isQuote,
           Grp 1 (Plus (Chr (\<lambda>c. \<not> isQuote c \<and> c \<noteq> NL))), Opt (Chr isQuote), Eol]"

definition formatTitleForObsidian :: "(nat \<Rightarrow> jsstring) \<Rightarrow> jsstring \<Rightarrow> jsstring" where
  "formatTitleForObsidian lowerNonAscii metadata =
     replaceAll rxTitle
       (\<lambda>match caps.
          (let titleValue = group caps 1
           in if titleValue \<noteq> [] \<and> trim titleValue \<noteq> []
              then js ''title: '' @ [34] @ formatSingleTag lowerNonAscii titleValue @ [34]
              else match))
       metadata"

text \<open>
  The three wrapper-stripping statements that open \<open>validateAndFormatMetadata\<close>; the
  function itself follows the state, since it reads the clock. Its parameter \<open>template\<close>
  is not used by its body.
\<close>

definition stripWrappers :: "jsstring \<Rightarrow> jsstring" where
  "stripWrappers metadata =
     (let c1 = replaceFirst (Seq (lit (js ''\<newline>```'')) Eos) (\<lambda>_ _. [])
                 (replaceFirst (Seq Bos (lit (js ''```yaml\<newline>''))) (\<lambda>_ _. []) metadata);
          c2 = replaceFirst (Seq (lit (js ''\<newline>```'')) Eos) (\<lambda>_ _. [])
                 (replaceFirst (Seq Bos (lit (js ''```\<newline>''))) (\<lambda>_ _. []) c1)
      in replaceFirst (Seq Bos (lit (js ''---\<newline>''))) (\<lambda>_ _. []) c2)"

section \<open>Language detection (ai-service.ts)\<close>

text \<open>
  \<open>a / b > t\<close> on JavaScript numbers, for two counts: with \<open>b = 0\<close> the quotient is
  \<open>NaN\<close> and the comparison is false. The quotient is taken exactly, not rounded to a
  double.
\<close>

definition ratioAbove :: "nat \<Rightarrow> nat \<Rightarrow> real \<Rightarrow> bool" where
  "ratioAbove a b t = (if b = 0 then False else real a / real b > t)"

text \<open>The normalisation: lower-case, then drop what the character class does not keep.\<close>

definition normalizeText :: "(nat \<Rightarrow> jsstring) \<Rightarrow> jsstring \<Rightarrow> jsstring" where
  "normalizeText lowerNonAscii content =
     replaceAll
       (Chr (\<lambda>c. \<not> (isWordChar c \<or> isSpace c \<or> isHan c \<or> isKana c
                      \<or> (0x0100 \<le> c \<and> c \<le> 0x017F) \<or> (0x00C0 \<le> c \<and> c \<le> 0x00FF))))
       (\<lambda>_ _. [])
       (toLowerCase lowerNonAscii content)"

definition commonWords :: "(jsstring \<times> jsstring list) list" where
  "commonWords =
 [(js ''en'',
   [js ''the'', js ''and'', js ''or'', js ''but'', js ''in'', js ''on'', js ''at'', js ''to'',
    js ''for'', js ''of'', js ''with'', js ''by'', js ''this'', js ''that'', js ''is'',
    js ''are'', js ''was'', js ''were'', js ''have'', js ''has'']),
  (js ''zh'',
   [[0x7684], [0x4E86], [0x548C], [0x662F], [0x5728], [0x6709], [0x4E0D], [0x8FD9], [0x6211],
    [0x4F60], [0x4ED6], [0x5979]]),
  (js ''ja'',
   [[0x3067, 0x3059], [0x3067, 0x3042, 0x308B], [0x3068, 0x3057, 0x3066],
    [0x306B, 0x3064, 0x3044, 0x3066], [0x304B, 0x3089], [0x307E, 0x3067], [0x3067, 0x306F],
    [0x3088, 0x308A]]),
  (js ''ko'',
   [[0xC774, 0xB2E4], [0xC788, 0xB2E4], [0xC5C6, 0xB2E4], [0xD558, 0xB2E4], [0xB418, 0xB2E4],
    [0xAC19, 0xB2E4], [0xB9CE, 0xB2E4], [0xC88B, 0xB2E4]]),
  (js ''fr'',
   [js ''le'', js ''la'', js ''les'', js ''de'', js ''des'', js ''du'', js ''et'', js ''un'',
    js ''une'', js ''il'', js ''elle'', [0x00EA, 0x0074, 0x0072, 0x0065], js ''avoir'',
    js ''que'', js ''pour'', js ''avec'', js ''sur'', js ''dans'']),
  (js ''de'',
   [js ''der'', js ''die'', js ''das'', js ''und'', js ''in'', js ''den'', js ''von'', js ''zu'',
    js ''mit'', js ''sich'', js ''auf'', js ''ist'', js ''sind'', js ''war'', js ''waren'',
    js ''haben'', js ''hat'']),
  (js ''es'',
   [js ''el'', js ''la'', js ''los'', js ''las'', js ''de'', js ''del'', js ''que'', js ''y'',
    js ''a'', js ''en'', js ''un'', js ''una'', js ''ser'', js ''estar'', js ''se'', js ''no'',
    js ''te'', js ''con'', js ''por'']),
  (js ''it'',
   [js ''il'', js ''la'', js ''lo'', js ''gli'', js ''le'', js ''di'', js ''del'', js ''della'',
    js ''che'', js ''e'', js ''ed'', js ''un'', js ''una'', js ''per'', js ''non'', js ''in'',
    js ''si'', js ''con'', js ''essere'', js ''avere'']),
  (js ''ru'',
   [[0x0438], [0x0432], [0x043D, 0x0435], [0x043D, 0x0430], [0x044F],
    [0x0431, 0x044B, 0x0442, 0x044C], [0x043E, 0x043D], [0x0441], [0x043A, 0x0430, 0x043A],
    [0x0447, 0x0442, 0x043E], [0x044D, 0x0442, 0x043E], [0x0432, 0x044B]])]"

text \<open>\<open>new RegExp(`\\b${word}\\b`, 'g')\<close>; no word of the table holds a regex operator.\<close>

definition rxWord :: "jsstring \<Rightarrow> rx" where
  "rxWord word = seqs [WordB, lit word, WordB]"

fun wordScore :: "jsstring \<Rightarrow> jsstring list \<Rightarrow> nat \<Rightarrow> nat" where
  "wordScore text [] score = score"
| "wordScore text (word # rest) score =
     wordScore text rest (score + countMatches (rxWord word) text)"

text \<open>\<open>/\bthe\s+\w+/g\<close>, and the same with \<open>and\<close>, \<open>of\<close>, \<open>in\<close>, \<open>to\<close>.\<close>

definition englishPatterns :: "rx list" where
  "englishPatterns =
     map (\<lambda>w. seqs [WordB, lit w, Plus (Chr isSpace), Plus (Chr isWordChar)])
         [js ''the'', js ''and'', js ''of'', js ''in'', js ''to'']"

fun patternScoreLoop :: "jsstring \<Rightarrow> rx list \<Rightarrow> nat \<Rightarrow> nat" where
  "patternScoreLoop text [] patternScore = patternScore"
| "patternScoreLoop text (pattern # rest) patternScore =
     patternScoreLoop text rest (patternScore + countMatches pattern text)"

text \<open>The loop over \<open>Object.entries(commonWords)\<close>; the state is \<open>(maxScore, detectedLang)\<close>.\<close>

fun scoreLoop ::
  "jsstring \<Rightarrow> (jsstring \<times> jsstring list) list \<Rightarrow> nat \<times> jsstring \<Rightarrow> nat \<times> jsstring" where
  "scoreLoop text [] (maxScore, detectedLang) = (maxScore, detectedLang)"
| "scoreLoop text ((lang, wordList) # rest) (maxScore, detectedLang) =
     (let score0 = wordScore text wordList 0;
          score = (if lang = js ''en'' \<and> score0 > 0
                   then score0 + patternScoreLoop text englishPatterns 0 * 2
                   else score0)
      in scoreLoop text rest
           (if score > maxScore then (score, lang) else (maxScore, detectedLang)))"

definition countClass :: "nat set \<Rightarrow> jsstring \<Rightarrow> nat" where
  "countClass cls text = countMatches (Chr (\<lambda>c. c \<in> cls)) text"

definition detectLanguage :: "(nat \<Rightarrow> jsstring) \<Rightarrow> jsstring \<Rightarrow> jsstring" where
  "detectLanguage lowerNonAscii content =
     (let text = normalizeText lowerNonAscii content;
          totalChars = length text;
          chineseChars = countMatches (Chr isHan) text;
          japaneseChars = countMatches (Chr isKana) text;
          koreanChars = countMatches (Chr isHangul) text;
          russianChars = countMatches (Chr isCyrillic) text
      in if ratioAbove chineseChars totalChars (1 / 10) then js ''zh''
         else if ratioAbove japaneseChars totalChars (5 / 100) then js ''ja''
         else if ratioAbove koreanChars totalChars (5 / 100) then js ''ko''
         else if ratioAbove russianChars totalChars (1 / 10) then js ''ru''
         else
           (let (maxScore, detectedLang) = scoreLoop text commonWords (0, js ''en'')
            in if maxScore < 3 then
                 (let frenchChars =
                        countClass {0xE0, 0xE2, 0xE4, 0xE7, 0xE9, 0xE8, 0xEA, 0xEB, 0xEF, 0xEE,
                                    0xF4, 0xF6, 0xF9, 0xFB, 0xFC, 0xFF} text;
                      germanChars = countClass {0xE4, 0xF6, 0xFC, 0xDF} text;
                      spanishChars = countClass {0xF1, 0xE1, 0xE9, 0xED, 0xF3, 0xFA, 0xFC} text;
                      italianChars =
                        countClass {0xE0, 0xE8, 0xE9, 0xEC, 0xED, 0xEE, 0xF2, 0xF3, 0xF9} text;
                      italianDoubleConsonants =
                        countMatches
                          (Seq (Chr (\<lambda>c. c \<in> set (js ''bcdfglmnpqrstvz'')))
                               (Chr (\<lambda>c. c \<in> set (js ''bcdfglmnpqrstvz''))))
                          text
                  in if ratioAbove frenchChars totalChars (5 / 100) then js ''fr''
                     else if ratioAbove germanChars totalChars (4 / 100) then js ''de''
                     else if ratioAbove spanishChars totalChars (4 / 100) then js ''es''
                     else if ratioAbove italianChars totalChars (5 / 100)
                             \<or> ratioAbove italianDoubleConsonants totalChars (2 / 100)
                          then js ''it''
                     else detectedLang)
               else detectedLang))"

section \<open>Data model (types.ts)\<close>

text \<open>
  The interfaces of \<open>types.ts\<close> as records. \<open>id\<close> and \<open>name\<close> of a template are the
  fields \<open>tid\<close> and \<open>tname\<close>; an optional field is an \<open>option\<close>; a \<open>Date\<close> held by value is
  its time in milliseconds.
\<close>

record MetadataTemplate =
  tid :: jsstring
  tname :: jsstring
  description :: jsstring
  yamlStructure :: jsstring
  aiPrompt :: jsstring
  isBuiltIn :: bool
  createdAt :: int
  updatedAt :: int

record AIApiConfig =
  provider :: jsstring
  apiKey :: jsstring
  baseUrl :: jsstring
  model :: jsstring
  temperature :: real
  maxTokens :: int
  timeout :: int

record MetadataGenerationRequest =
  documentContent :: jsstring
  fileName :: jsstring
  template :: MetadataTemplate
  existingMetadata :: "jsstring option"

record MetadataGenerationResponse =
  success :: bool
  metadata :: "jsstring option"
  error :: "jsstring option"
  tokensUsed :: "nat option"
  processingTime :: "int option"

record TFile =
  name :: jsstring
  path :: jsstring

record OpenAIMessage =
  role :: jsstring
  content :: jsstring

text \<open>The request handed to \<open>fetch\<close>: the URL, the \<open>Authorization\<close> header and the JSON body.\<close>

record HttpRequest =
  url :: jsstring
  authorization :: jsstring
  body_model :: jsstring
  body_messages :: "OpenAIMessage list"
  body_temperature :: real
  body_max_tokens :: int

text \<open>
  The parsed reply: \<open>choices\<close> (absent, or the list of \<open>message.content\<close> values, each
  absent or a string) and \<open>usage.total_tokens\<close>.
\<close>

record OpenAIResponse =
  choices :: "jsstring option list option"
  usage_total_tokens :: "nat option"

text \<open>
  What one call of \<open>fetch\<close> does: the timeout aborts it (a rejection named
  \<open>AbortError\<close>), it rejects with another value, it answers with a status that is not
  \<open>ok\<close> and a body text, its body fails to parse, or it answers with a parsed body.
\<close>

datatype FetchOutcome =
    Aborted
  | Rejected thrown
  | Status nat jsstring
  | BadJson thrown
  | Json OpenAIResponse

section \<open>The environment and the state\<close>

text \<open>
  The collaborators the plugin calls but does not define are the fields of \<open>env\<close>: the
  vault of the host (\<open>read\<close> and \<open>modify\<close> over a vault state \<open>'v\<close>, either of which may
  reject), \<open>fetch\<close> (the outcome of the \<open>n\<close>-th call), the system clock (the \<open>n\<close>-th
  reading, in milliseconds), \<open>Date.prototype.toISOString\<close>, the Unicode lower-casing of
  non-ASCII code units, and the two nine-language tables of fixed strings
  (\<open>getLanguageSpecificPrompt\<close> gives \<open>(systemRole, languageInstruction)\<close>,
  \<open>getLanguageLabels\<close> gives \<open>(fileName, documentContent, existingMetadata,
  updateInstruction)\<close>, both with their fallback to the English entry).
\<close>

record 'v env =
  vault_read :: "'v \<Rightarrow> TFile \<Rightarrow> thrown + jsstring"
  vault_modify :: "'v \<Rightarrow> TFile \<Rightarrow> jsstring \<Rightarrow> thrown + 'v"
  fetch :: "nat \<Rightarrow> HttpRequest \<Rightarrow> FetchOutcome"
  clock :: "nat \<Rightarrow> int"
  toISOString :: "int \<Rightarrow> jsstring"
  lowerNonAscii :: "nat \<Rightarrow> jsstring"
  getLanguageSpecificPrompt :: "jsstring \<Rightarrow> jsstring \<times> jsstring"
  getLanguageLabels :: "jsstring \<Rightarrow> jsstring \<times> jsstring \<times> jsstring \<times> jsstring"

text \<open>
  \<open>UsageStats\<close> objects and the \<open>Date\<close> objects they point to live in a heap, since
  \<open>getUsageStats\<close> hands out a copy whose two dates are shared with the original.
  Addresses from \<open>nextAddr\<close> on are free.
\<close>

type_synonym addr = nat

record UsageStats =
  totalRequests :: nat
  successfulRequests :: nat
  failedRequests :: nat
  totalTokensUsed :: nat
  averageProcessingTime :: real
  lastResetDate :: addr
  lastUsed :: addr

text \<open>
  The state: the vault, the requests sent so far, the number of clock readings so far,
  the heap, and \<open>this.usageStats\<close> of the \<open>MetadataGenerator\<close> (a reference).
\<close>

record 'v world =
  vault :: 'v
  sent :: "HttpRequest list"
  ticks :: nat
  statsObjs :: "addr \<Rightarrow> UsageStats"
  dateObjs :: "addr \<Rightarrow> int"
  nextAddr :: addr
  usageStats :: addr

text \<open>\<open>Date.now()\<close>.\<close>

definition dateNow :: "'v env \<Rightarrow> 'v world \<Rightarrow> int \<times> 'v world" where
  "dateNow env w = (clock env (ticks w), w\<lparr>ticks := ticks w + 1\<rparr>)"

text \<open>\<open>new Date().toISOString().split('T')[0]\<close>.\<close>

definition currentDateText :: "'v env \<Rightarrow> 'v world \<Rightarrow> jsstring \<times> 'v world" where
  "currentDateText env w =
     (let (t, w') = dateNow env w
      in (case splitOn 84 (toISOString env t) of [] \<Rightarrow> [] | d # _ \<Rightarrow> d, w'))"

text \<open>\<open>new Date()\<close> kept as an object: a fresh heap cell holding the reading.\<close>

definition newDate :: "'v env \<Rightarrow> 'v world \<Rightarrow> addr \<times> 'v world" where
  "newDate env w =
     (let (t, w') = dateNow env w
      in (nextAddr w',
          w'\<lparr>dateObjs := (dateObjs w')(nextAddr w' := t), nextAddr := nextAddr w' + 1\<rparr>))"

section \<open>The generation client (ai-service.ts)\<close>

definition validateAndFormatMetadata ::
  "'v env \<Rightarrow> jsstring \<Rightarrow> 'v world \<Rightarrow> (thrown + jsstring) \<times> 'v world" where
  "validateAndFormatMetadata env metadata' w =
     (let cleanMetadata = stripWrappers metadata';
          validLines = filter (\<lambda>line. trim line \<noteq> []) (splitOn NL cleanMetadata)
      in if length validLines = 0 then
           (Inl (Error (js ''Metadata format validation failed: ''
                         @ js ''Generated metadata is empty'')), w)
         else
           (let (currentDate, w') = currentDateText env w
            in (Inr (formatTitleForObsidian (lowerNonAscii env)
                      (formatTagsForObsidian (lowerNonAscii env)
                        (replaceAll (lit (js ''{{date}}'')) (\<lambda>_ _. currentDate) cleanMetadata))),
                w')))"

definition buildSystemPrompt ::
  "'v env \<Rightarrow> MetadataGenerationRequest \<Rightarrow> 'v world \<Rightarrow> jsstring \<times> 'v world" where
  "buildSystemPrompt env request w =
     (let (currentDate, w') = currentDateText env w;
          detectedLanguage = detectLanguage (lowerNonAscii env) (documentContent request);
          (systemRole, languageInstruction) = getLanguageSpecificPrompt env detectedLanguage
      in (systemRole
          @ js ''\<newline>\<newline>Requirements:\<newline>1. Strictly follow the provided YAML template structure\<newline>2. Ensure the generated content accurately reflects the document content\<newline>3. ''
          @ languageInstruction
          @ js ''\<newline>4. Use date format: ''
          @ currentDate
          @ js ''\<newline>5. IMPORTANT: Title must use lowercase letters and connect multiple words with hyphens (-). For example: \"machine-learning-guide\", \"project-management-notes\"\<newline>6. IMPORTANT: All tags must be formatted for Obsidian compatibility - use lowercase letters and connect multiple words with hyphens (-). For example: \"machine-learning\", \"project-management\", \"data-science\"\<newline>7. Tags should be specific and useful, avoid being too broad\<newline>8. Only return YAML format metadata, do not include other content\<newline>9. Do not include YAML separators (---)\<newline>\<newline>Template structure:\<newline>```yaml\<newline>''
          @ yamlStructure (template request)
          @ js ''\<newline>```\<newline>\<newline>Specific requirements:\<newline>''
          @ aiPrompt (template request),
          w'))"

definition buildUserPrompt :: "'v env \<Rightarrow> MetadataGenerationRequest \<Rightarrow> jsstring" where
  "buildUserPrompt env request =
     (let detectedLanguage = detectLanguage (lowerNonAscii env) (documentContent request);
          (lFileName, lDocumentContent, lExistingMetadata, lUpdateInstruction) =
             getLanguageLabels env detectedLanguage;
          prompt = lFileName @ fileName request @ js ''\<newline>\<newline>'' @ lDocumentContent
                   @ js ''\<newline>'' @ documentContent request
      in (case existingMetadata request of
            None \<Rightarrow> prompt
          | Some existing \<Rightarrow>
              if existing = [] then prompt
              else prompt @ js ''\<newline>\<newline>'' @ lExistingMetadata @ js ''\<newline>'' @ existing
                     @ js ''\<newline>\<newline>'' @ lUpdateInstruction))"

definition buildMessages ::
  "'v env \<Rightarrow> MetadataGenerationRequest \<Rightarrow> 'v world \<Rightarrow> OpenAIMessage list \<times> 'v world" where
  "buildMessages env request w =
     (let (systemPrompt, w') = buildSystemPrompt env request w;
          userPrompt = buildUserPrompt env request
      in ([\<lparr>role = js ''system'', content = systemPrompt\<rparr>,
           \<lparr>role = js ''user'', content = userPrompt\<rparr>], w'))"

text \<open>The decimal text of a number, for \<open>${response.status}\<close>.\<close>

fun showNat :: "nat \<Rightarrow> jsstring" where
  "showNat n = (if n < 10 then [48 + n] else showNat (n div 10) @ [48 + n mod 10])"

declare showNat.simps [simp del]

text \<open>
  \<open>makeApiRequest\<close>: the request is handed to \<open>fetch\<close> (and recorded in \<open>sent\<close>); every
  failure leaves through the \<open>catch\<close>, which renames a timeout, rethrows an \<open>Error\<close> and
  replaces any other thrown value by \<open>API_REQUEST_FAILED\<close>.
\<close>

definition makeApiRequest ::
  "'v env \<Rightarrow> AIApiConfig \<Rightarrow> OpenAIMessage list \<Rightarrow> bool \<Rightarrow> 'v world
     \<Rightarrow> (thrown + OpenAIResponse) \<times> 'v world" where
  "makeApiRequest env config messages isTest w =
     (let request =
            \<lparr>url = baseUrl config @ js ''/chat/completions'',
             authorization = js ''Bearer '' @ apiKey config,
             body_model = model config,
             body_messages = messages,
             body_temperature = (if isTest then 0 else temperature config),
             body_max_tokens = (if isTest then 50 else maxTokens config)\<rparr>;
          outcome = fetch env (length (sent w)) request;
          w' = w\<lparr>sent := sent w @ [request]\<rparr>;
          rethrow = (\<lambda>e. case e of
                           Error m \<Rightarrow> Error m
                         | NonError v \<Rightarrow> Error (js ''API_REQUEST_FAILED''))
      in (case outcome of
            Aborted \<Rightarrow> (Inl (Error (js ''API request timeout'')), w')
          | Rejected e \<Rightarrow> (Inl (rethrow e), w')
          | Status code errorBody \<Rightarrow>
              (Inl (Error (js ''API request failed ('' @ showNat code @ js ''): '' @ errorBody)), w')
          | BadJson e \<Rightarrow> (Inl (rethrow e), w')
          | Json data \<Rightarrow>
              (case choices data of
                 None \<Rightarrow>
                   (Inl (Error (js ''API response format error: missing choices field'')), w')
               | Some cs \<Rightarrow>
                   if length cs = 0
                   then (Inl (Error (js ''API response format error: missing choices field'')), w')
                   else (Inr data, w'))))"

definition parseResponse :: "OpenAIResponse \<Rightarrow> thrown + jsstring" where
  "parseResponse response =
     (case choices response of
        Some (Some content' # _) \<Rightarrow>
          if content' = [] then Inl (Error (js ''INVALID_RESPONSE'')) else Inr (trim content')
      | _ \<Rightarrow> Inl (Error (js ''INVALID_RESPONSE'')))"

text \<open>The \<open>try\<close> block of \<open>generateMetadata\<close>: the metadata and the token count, or what was thrown.\<close>

definition generateMetadataTry ::
  "'v env \<Rightarrow> AIApiConfig \<Rightarrow> MetadataGenerationRequest \<Rightarrow> 'v world
     \<Rightarrow> (thrown + jsstring \<times> nat) \<times> 'v world" where
  "generateMetadataTry env config request w =
     (if apiKey config = [] then (Inl (Error (js ''API_KEY_MISSING'')), w)
      else
        (let (messages, w1) = buildMessages env request w
         in (case makeApiRequest env config messages False w1 of
               (Inl e, w2) \<Rightarrow> (Inl e, w2)
             | (Inr response, w2) \<Rightarrow>
                 (case parseResponse response of
                    Inl e \<Rightarrow> (Inl e, w2)
                  | Inr metadata' \<Rightarrow>
                      (case validateAndFormatMetadata env metadata' w2 of
                         (Inl e, w3) \<Rightarrow> (Inl e, w3)
                       | (Inr validatedMetadata, w3) \<Rightarrow>
                           (Inr (validatedMetadata,
                                 (case usage_total_tokens response of
                                    None \<Rightarrow> 0
                                  | Some n \<Rightarrow> n)), w3))))))"

definition generateMetadata ::
  "'v env \<Rightarrow> AIApiConfig \<Rightarrow> MetadataGenerationRequest \<Rightarrow> 'v world
     \<Rightarrow> MetadataGenerationResponse \<times> 'v world" where
  "generateMetadata env config request w =
     (let (startTime, w1) = dateNow env w;
          (outcome, w2) = generateMetadataTry env config request w1;
          (endTime, w3) = dateNow env w2
      in (case outcome of
            Inr (validatedMetadata, tokens) \<Rightarrow>
              (\<lparr>success = True, metadata = Some validatedMetadata, error = None,
                tokensUsed = Some tokens, processingTime = Some (endTime - startTime)\<rparr>, w3)
          | Inl e \<Rightarrow>
              (\<lparr>success = False, metadata = None, error = Some (thrownMessage e),
                tokensUsed = None, processingTime = Some (endTime - startTime)\<rparr>, w3)))"

section \<open>The template store (template-manager.ts)\<close>

text \<open>
  \<open>this.templates\<close> is a JavaScript \<open>Map\<close>: an association list in insertion order with
  distinct keys. \<open>mapSet\<close> replaces the value of a key in place or appends a new entry.
\<close>

type_synonym TemplateMap = "(jsstring \<times> MetadataTemplate) list"

definition mapGet :: "('k \<times> 'a) list \<Rightarrow> 'k \<Rightarrow> 'a option" where
  "mapGet m k = map_of m k"

fun mapSet :: "('k \<times> 'a) list \<Rightarrow> 'k \<Rightarrow> 'a \<Rightarrow> ('k \<times> 'a) list" where
  "mapSet [] k v = [(k, v)]"
| "mapSet ((k', v') # m) k v = (if k' = k then (k, v) # m else (k', v') # mapSet m k v)"

definition mapDelete :: "('k \<times> 'a) list \<Rightarrow> 'k \<Rightarrow> ('k \<times> 'a) list" where
  "mapDelete m k = filter (\<lambda>entry. fst entry \<noteq> k) m"

text \<open>The constructor; \<open>BUILT_IN_TEMPLATES\<close> is the list \<open>builtIns\<close>.\<close>

fun initializeBuiltInTemplates :: "MetadataTemplate list \<Rightarrow> TemplateMap \<Rightarrow> TemplateMap" where
  "initializeBuiltInTemplates [] templates = templates"
| "initializeBuiltInTemplates (t # builtIns) templates =
     initializeBuiltInTemplates builtIns (mapSet templates (tid t) t)"

definition getTemplate :: "TemplateMap \<Rightarrow> jsstring \<Rightarrow> MetadataTemplate option" where
  "getTemplate templates i = mapGet templates i"

text \<open>
  The argument of \<open>updateTemplate\<close>, a
  \<open>Partial<Omit<MetadataTemplate, 'id' | 'isBuiltIn' | 'createdAt'>>\<close>.
\<close>

record TemplateUpdates =
  upd_name :: "jsstring option"
  upd_description :: "jsstring option"
  upd_yamlStructure :: "jsstring option"
  upd_aiPrompt :: "jsstring option"
  upd_updatedAt :: "int option"

definition orElse :: "'a option \<Rightarrow> 'a \<Rightarrow> 'a" where
  "orElse x d = (case x of None \<Rightarrow> d | Some v \<Rightarrow> v)"

definition updateTemplate ::
  "'v env \<Rightarrow> jsstring \<Rightarrow> TemplateUpdates \<Rightarrow> TemplateMap \<times> 'v world
     \<Rightarrow> bool \<times> TemplateMap \<times> 'v world" where
  "updateTemplate env i updates st =
     (case mapGet (fst st) i of
        None \<Rightarrow> (False, st)
      | Some t \<Rightarrow>
          if isBuiltIn t then (False, st)
          else
            (let (now, w') = dateNow env (snd st);
                 updatedTemplate =
                   t\<lparr>tname := orElse (upd_name updates) (tname t),
                     description := orElse (upd_description updates) (description t),
                     yamlStructure := orElse (upd_yamlStructure updates) (yamlStructure t),
                     aiPrompt := orElse (upd_aiPrompt updates) (aiPrompt t),
                     updatedAt := now\<rparr>
             in (True, mapSet (fst st) i updatedTemplate, w')))"

definition deleteTemplate :: "jsstring \<Rightarrow> TemplateMap \<Rightarrow> bool \<times> TemplateMap" where
  "deleteTemplate i templates =
     (case mapGet templates i of
        None \<Rightarrow> (False, templates)
      | Some t \<Rightarrow>
          if isBuiltIn t then (False, templates) else (True, mapDelete templates i))"

fun loadCustom :: "MetadataTemplate list \<Rightarrow> TemplateMap \<Rightarrow> TemplateMap" where
  "loadCustom [] templates = templates"
| "loadCustom (t # templatesData) templates =
     loadCustom templatesData (if isBuiltIn t then templates else mapSet templates (tid t) t)"

definition loadFromJson :: "MetadataTemplate list \<Rightarrow> TemplateMap \<Rightarrow> TemplateMap" where
  "loadFromJson templatesData templates =
     (let builtInTemplates = filter isBuiltIn (map snd templates)
      in loadCustom templatesData (initializeBuiltInTemplates builtInTemplates []))"

section \<open>The orchestrator (metadata-generator.ts)\<close>

text \<open>Reading and writing \<open>this.usageStats\<close>, the object the reference points to.\<close>

definition currentStats :: "'v world \<Rightarrow> UsageStats" where
  "currentStats w = statsObjs w (usageStats w)"

definition writeStats :: "addr \<Rightarrow> (UsageStats \<Rightarrow> UsageStats) \<Rightarrow> 'v world \<Rightarrow> 'v world" where
  "writeStats a f w = w\<lparr>statsObjs := (statsObjs w)(a := f (statsObjs w a))\<rparr>"

text \<open>
  The object literal of the constructor and of \<open>resetUsageStats\<close>: two \<open>new Date()\<close>, then
  a fresh object, then the assignment to \<open>this.usageStats\<close>.
\<close>

definition resetUsageStats :: "'v env \<Rightarrow> 'v world \<Rightarrow> 'v world" where
  "resetUsageStats env w =
     (let (d1, w1) = newDate env w;
          (d2, w2) = newDate env w1;
          a = nextAddr w2
      in w2\<lparr>statsObjs := (statsObjs w2)
                (a := \<lparr>totalRequests = 0, successfulRequests = 0, failedRequests = 0,
                       totalTokensUsed = 0, averageProcessingTime = 0,
                       lastResetDate = d1, lastUsed = d2\<rparr>),
            nextAddr := a + 1,
            usageStats := a\<rparr>)"

text \<open>\<open>return { ...this.usageStats }\<close>: a fresh object with the same seven field values.\<close>

definition getUsageStats :: "'v world \<Rightarrow> addr \<times> 'v world" where
  "getUsageStats w =
     (let a = nextAddr w
      in (a, w\<lparr>statsObjs := (statsObjs w)(a := currentStats w), nextAddr := a + 1\<rparr>))"

definition updateUsageStats ::
  "'v env \<Rightarrow> MetadataGenerationResponse \<Rightarrow> int \<Rightarrow> 'v world \<Rightarrow> 'v world" where
  "updateUsageStats env response elapsed w =
     (let w1 = writeStats (usageStats w) (\<lambda>s. s\<lparr>totalRequests := totalRequests s + 1\<rparr>) w;
          w2 = (if success response
                then writeStats (usageStats w1)
                       (\<lambda>s. s\<lparr>successfulRequests := successfulRequests s + 1\<rparr>) w1
                else writeStats (usageStats w1)
                       (\<lambda>s. s\<lparr>failedRequests := failedRequests s + 1\<rparr>) w1);
          w3 = (case tokensUsed response of
                  None \<Rightarrow> w2
                | Some n \<Rightarrow>
                    if n = 0 then w2
                    else writeStats (usageStats w2)
                           (\<lambda>s. s\<lparr>totalTokensUsed := totalTokensUsed s + n\<rparr>) w2);
          w4 = writeStats (usageStats w3)
                 (\<lambda>s. s\<lparr>averageProcessingTime :=
                           (averageProcessingTime s * (real (totalRequests s) - 1)
                              + real_of_int elapsed) / real (totalRequests s)\<rparr>) w3;
          (d, w5) = newDate env w4
      in writeStats (usageStats w5) (\<lambda>s. s\<lparr>lastUsed := d\<rparr>) w5)"

text \<open>\<open>this.usageStats.failedRequests++\<close>.\<close>

definition incrementFailedRequests :: "'v world \<Rightarrow> 'v world" where
  "incrementFailedRequests w =
     writeStats (usageStats w) (\<lambda>s. s\<lparr>failedRequests := failedRequests s + 1\<rparr>) w"

definition insertMetadata ::
  "'v env \<Rightarrow> TFile \<Rightarrow> jsstring \<Rightarrow> bool \<Rightarrow> 'v world \<Rightarrow> (thrown + unit) \<times> 'v world" where
  "insertMetadata env file metadata' replaceExisting w =
     (case vault_read env (vault w) file of
        Inl e \<Rightarrow> (Inl e, w)
      | Inr content' \<Rightarrow>
          (case vault_modify env (vault w) file
                  (insertMetadataContent content' metadata' replaceExisting) of
             Inl e \<Rightarrow> (Inl e, w)
           | Inr v' \<Rightarrow> (Inr (), w\<lparr>vault := v'\<rparr>)))"

text \<open>\<open>throw new Error(response.error || 'Generation failed')\<close>.\<close>

definition generationError :: "MetadataGenerationResponse \<Rightarrow> thrown" where
  "generationError response =
     Error (case error response of
              None \<Rightarrow> js ''Generation failed''
            | Some m \<Rightarrow> if m = [] then js ''Generation failed'' else m)"

text \<open>\<open>!response.success || !response.metadata\<close>.\<close>

definition unusable :: "MetadataGenerationResponse \<Rightarrow> bool" where
  "unusable response =
     (if success response
      then (case metadata response of None \<Rightarrow> True | Some m \<Rightarrow> m = [])
      else True)"

text \<open>
  The \<open>try\<close> block of \<open>generateWithTemplate\<close>. With \<open>previewBeforeInsert\<close> the preview
  dialog is opened and the function returns; the dialog inserts later, on its own event.
\<close>

definition generateWithTemplateTry ::
  "'v env \<Rightarrow> AIApiConfig \<Rightarrow> TFile \<Rightarrow> MetadataTemplate \<Rightarrow> jsstring \<Rightarrow> bool \<Rightarrow> int \<Rightarrow> 'v world
     \<Rightarrow> (thrown + unit) \<times> 'v world" where
  "generateWithTemplateTry env config file template' documentContent' previewBeforeInsert
     startTime w =
     (case vault_read env (vault w) file of
        Inl e \<Rightarrow> (Inl e, w)
      | Inr content' \<Rightarrow>
          (let request = \<lparr>documentContent = documentContent', fileName = name file,
                          template = template',
                          existingMetadata = extractExistingMetadataContent content'\<rparr>;
               (response, w1) = generateMetadata env config request w
           in if unusable response then (Inl (generationError response), w1)
              else
                (let (endTime, w2) = dateNow env w1;
                     w3 = updateUsageStats env response (endTime - startTime) w2
                 in if previewBeforeInsert then (Inr (), w3)
                    else insertMetadata env file (orElse (metadata response) []) False w3)))"

definition generateWithTemplate ::
  "'v env \<Rightarrow> AIApiConfig \<Rightarrow> TFile \<Rightarrow> MetadataTemplate \<Rightarrow> jsstring \<Rightarrow> bool \<Rightarrow> 'v world
     \<Rightarrow> (thrown + unit) \<times> 'v world" where
  "generateWithTemplate env config file template' documentContent' previewBeforeInsert w =
     (let (startTime, w1) = dateNow env w
      in (case generateWithTemplateTry env config file template' documentContent'
                 previewBeforeInsert startTime w1 of
            (Inl e, w2) \<Rightarrow> (Inl e, incrementFailedRequests w2)
          | (Inr u, w2) \<Rightarrow> (Inr u, w2)))"

subsection \<open>Batch generation\<close>

text \<open>
  The options of \<open>batchGenerate\<close>; \<open>onProgress\<close> is a callback of the caller, which may
  throw. The result is \<open>{ success, failed, errors }\<close>.
\<close>

record BatchOptions =
  opt_replaceExisting :: "bool option"
  opt_maxConcurrent :: "int option"
  opt_onProgress :: "(int \<Rightarrow> nat \<Rightarrow> jsstring \<Rightarrow> thrown option) option"

record BatchResults =
  results_success :: nat
  results_failed :: nat
  results_errors :: "jsstring list"

text \<open>\<open>xs.slice(s, e)\<close> for integers: a negative index counts from the end.\<close>

definition jsSlice :: "'a list \<Rightarrow> int \<Rightarrow> int \<Rightarrow> 'a list" where
  "jsSlice xs s e =
     (let len = int (length xs);
          from = (if s < 0 then max (len + s) 0 else min s len);
          to = (if e < 0 then max (len + e) 0 else min e len)
      in take (nat (to - from)) (drop (nat from) xs))"

text \<open>\<open>batch.indexOf(file)\<close> for a member of the batch.\<close>

fun indexIn :: "'a list \<Rightarrow> 'a \<Rightarrow> int" where
  "indexIn [] x = -1"
| "indexIn (y # ys) x = (if y = x then 0 else (let k = indexIn ys x in if k < 0 then k else k + 1))"

text \<open>
  The callbacks of one window run concurrently: \<open>batch.map\<close> starts each of them in list
  order, each runs up to its first \<open>await\<close>, and \<open>Promise.all\<close> waits until all of them
  have ended. A callback suspended at an \<open>await\<close> goes on when the awaited promise has
  settled; the program does not decide in which order the suspended callbacks of a window
  go on. A \<open>task\<close> is a suspended callback: the \<open>await\<close> it stands at, with the local
  variables it still needs.

  \<^item> \<open>AwaitRead\<close>: at \<open>await this.app.vault.read(file)\<close>, the first statement after
    \<open>onProgress\<close>;
  \<^item> \<open>AwaitApi startTime settled\<close>: inside \<open>generateMetadata\<close>, at
    \<open>await this.makeApiRequest(messages)\<close>; the request has been handed to \<open>fetch\<close>, and
    \<open>settled\<close> is what the promise of \<open>makeApiRequest\<close> settles with;
  \<^item> \<open>AwaitGenerate response\<close>: at \<open>await this.aiService.generateMetadata(request)\<close>, which
    has resolved with \<open>response\<close>;
  \<^item> \<open>AwaitInsertRead response\<close>: inside \<open>insertMetadata\<close>, at its
    \<open>await this.app.vault.read(file)\<close>;
  \<^item> \<open>AwaitModify response newContent\<close>: inside \<open>insertMetadata\<close>, at
    \<open>await this.app.vault.modify(file, newContent)\<close>;
  \<^item> \<open>AwaitInsert response settled\<close>: at \<open>await this.insertMetadata(...)\<close>, which has
    settled with \<open>settled\<close>;
  \<^item> \<open>Finished\<close>: the callback has ended.

  The vault is read and written when the callback goes on after the \<open>await\<close>, and the
  outcome of \<open>fetch\<close> and of reading its body is one event.
\<close>

datatype task =
    AwaitRead
  | AwaitApi int "thrown + OpenAIResponse"
  | AwaitGenerate MetadataGenerationResponse
  | AwaitInsertRead MetadataGenerationResponse
  | AwaitModify MetadataGenerationResponse jsstring
  | AwaitInsert MetadataGenerationResponse "thrown + unit"
  | Finished

text \<open>
  \<open>generateMetadata\<close> up to its \<open>await\<close>. Without an API key it has already returned (the
  \<open>catch\<close> builds the failed response); otherwise the messages are built, the request is
  sent and the function waits for \<open>makeApiRequest\<close>.
\<close>

definition generateMetadataCall ::
  "'v env \<Rightarrow> AIApiConfig \<Rightarrow> MetadataGenerationRequest \<Rightarrow> 'v world
     \<Rightarrow> (MetadataGenerationResponse + int \<times> (thrown + OpenAIResponse)) \<times> 'v world" where
  "generateMetadataCall env config request w =
     (let (startTime, w1) = dateNow env w
      in if apiKey config = [] then
           (let (endTime, w2) = dateNow env w1
            in (Inl \<lparr>success = False, metadata = None,
                     error = Some (thrownMessage (Error (js ''API_KEY_MISSING''))),
                     tokensUsed = None, processingTime = Some (endTime - startTime)\<rparr>, w2))
         else
           (let (messages, w2) = buildMessages env request w1;
                (settled, w3) = makeApiRequest env config messages False w2
            in (Inr (startTime, settled), w3)))"

text \<open>\<open>generateMetadata\<close> from its \<open>await\<close> on, once \<open>makeApiRequest\<close> has settled.\<close>

definition generateMetadataResume ::
  "'v env \<Rightarrow> int \<Rightarrow> thrown + OpenAIResponse \<Rightarrow> 'v world
     \<Rightarrow> MetadataGenerationResponse \<times> 'v world" where
  "generateMetadataResume env startTime settled w =
     (let (outcome, w1) =
            (case settled of
               Inl e \<Rightarrow> (Inl e, w)
             | Inr response \<Rightarrow>
                 (case parseResponse response of
                    Inl e \<Rightarrow> (Inl e, w)
                  | Inr metadata' \<Rightarrow>
                      (case validateAndFormatMetadata env metadata' w of
                         (Inl e, w') \<Rightarrow> (Inl e, w')
                       | (Inr validatedMetadata, w') \<Rightarrow>
                           (Inr (validatedMetadata,
                                 (case usage_total_tokens response of
                                    None \<Rightarrow> 0
                                  | Some n \<Rightarrow> n)), w'))));
          (endTime, w2) = dateNow env w1
      in (case outcome of
            Inr (validatedMetadata, tokens) \<Rightarrow>
              (\<lparr>success = True, metadata = Some validatedMetadata, error = None,
                tokensUsed = Some tokens, processingTime = Some (endTime - startTime)\<rparr>, w2)
          | Inl e \<Rightarrow>
              (\<lparr>success = False, metadata = None, error = Some (thrownMessage e),
                tokensUsed = None, processingTime = Some (endTime - startTime)\<rparr>, w2)))"

text \<open>
  How a callback leaves the piece of code it runs when it goes on: suspended at the next
  \<open>await\<close>, at the end of the \<open>try\<close> block, or in the \<open>catch\<close> with what was thrown.
\<close>

datatype step = Suspended task | Completed | Caught thrown

text \<open>The start of a callback, run by \<open>batch.map\<close>: \<open>onProgress\<close>, then the call of \<open>vault.read\<close>.\<close>

definition startTask ::
  "(int \<Rightarrow> nat \<Rightarrow> jsstring \<Rightarrow> thrown option) option \<Rightarrow> nat \<Rightarrow> int \<Rightarrow> TFile list \<Rightarrow> TFile \<Rightarrow> step"
  where
  "startTask onProgress nfiles i batch file =
     (case (case onProgress of
              None \<Rightarrow> None
            | Some callback \<Rightarrow> callback (i + indexIn batch file) nfiles (name file)) of
        Some e \<Rightarrow> Caught e
      | None \<Rightarrow> Suspended AwaitRead)"

text \<open>The code of the \<open>try\<close> block a suspended callback runs when it goes on.\<close>

definition resumeStep ::
  "'v env \<Rightarrow> AIApiConfig \<Rightarrow> MetadataTemplate \<Rightarrow> bool \<Rightarrow> TFile \<Rightarrow> task \<Rightarrow> 'v world
     \<Rightarrow> step \<times> 'v world" where
  "resumeStep env config template' replaceExisting file t w =
     (case t of
        AwaitRead \<Rightarrow>
          (case vault_read env (vault w) file of
             Inl e \<Rightarrow> (Caught e, w)
           | Inr content' \<Rightarrow>
               (let documentContent' = extractDocumentContent content'
                in if trim documentContent' = []
                   then (Caught (Error (js ''Document content is empty'')), w)
                   else
                     (case generateMetadataCall env config
                             \<lparr>documentContent = documentContent', fileName = name file,
                              template = template', existingMetadata = None\<rparr> w of
                        (Inl response, w1) \<Rightarrow> (Suspended (AwaitGenerate response), w1)
                      | (Inr (startTime, settled), w1) \<Rightarrow>
                          (Suspended (AwaitApi startTime settled), w1))))
      | AwaitApi startTime settled \<Rightarrow>
          (let (response, w1) = generateMetadataResume env startTime settled w
           in (Suspended (AwaitGenerate response), w1))
      | AwaitGenerate response \<Rightarrow>
          (if unusable response then (Caught (generationError response), w)
           else (Suspended (AwaitInsertRead response), w))
      | AwaitInsertRead response \<Rightarrow>
          (case vault_read env (vault w) file of
             Inl e \<Rightarrow> (Suspended (AwaitInsert response (Inl e)), w)
           | Inr content' \<Rightarrow>
               (Suspended (AwaitModify response
                   (insertMetadataContent content' (orElse (metadata response) [])
                      replaceExisting)), w))
      | AwaitModify response newContent \<Rightarrow>
          (case vault_modify env (vault w) file newContent of
             Inl e \<Rightarrow> (Suspended (AwaitInsert response (Inl e)), w)
           | Inr v' \<Rightarrow> (Suspended (AwaitInsert response (Inr ())), w\<lparr>vault := v'\<rparr>))
      | AwaitInsert response settled \<Rightarrow>
          (case settled of
             Inl e \<Rightarrow> (Caught e, w)
           | Inr u \<Rightarrow>
               (Completed,
                updateUsageStats env response (orElse (processingTime response) 0) w))
      | Finished \<Rightarrow> (Suspended Finished, w))"

text \<open>
  What follows the piece of code: nothing while the callback is suspended,
  \<open>results.success++\<close> at the end of the \<open>try\<close> block, the \<open>catch\<close> block otherwise.
\<close>

definition settle ::
  "TFile \<Rightarrow> step \<Rightarrow> BatchResults \<Rightarrow> task \<times> BatchResults" where
  "settle file s r =
     (case s of
        Suspended t \<Rightarrow> (t, r)
      | Completed \<Rightarrow> (Finished, r\<lparr>results_success := results_success r + 1\<rparr>)
      | Caught e \<Rightarrow>
          (Finished,
           r\<lparr>results_failed := results_failed r + 1,
             results_errors := results_errors r @ [name file @ js '': '' @ thrownMessage e]\<rparr>))"

text \<open>\<open>batch.map(async (file) => ...)\<close>: every callback is started, in list order.\<close>

fun startAll ::
  "(int \<Rightarrow> nat \<Rightarrow> jsstring \<Rightarrow> thrown option) option \<Rightarrow> nat \<Rightarrow> int \<Rightarrow> TFile list \<Rightarrow> TFile list
     \<Rightarrow> BatchResults \<Rightarrow> (TFile \<times> task) list \<times> BatchResults" where
  "startAll onProgress nfiles i batch [] r = ([], r)"
| "startAll onProgress nfiles i batch (file # rest) r =
     (let (t, r1) = settle file (startTask onProgress nfiles i batch file) r;
          (pool, r2) = startAll onProgress nfiles i batch rest r1
      in ((file, t) # pool, r2))"

text \<open>
  \<open>await Promise.all(batchPromises)\<close>. As long as a callback is pending, one of the
  pending callbacks goes on; which one is chosen by the schedule, a list of numbers read
  one per step (the number \<open>c\<close> chooses the pending callback at position \<open>c\<close> modulo the
  number of pending ones; when the list is used up the first pending callback goes on).
\<close>

definition pending :: "(TFile \<times> task) list \<Rightarrow> nat list" where
  "pending pool = filter (\<lambda>k. snd (pool ! k) \<noteq> Finished) [0..<length pool]"

definition pick :: "nat list \<Rightarrow> nat list \<Rightarrow> nat" where
  "pick sched ps = (case sched of [] \<Rightarrow> hd ps | c # _ \<Rightarrow> ps ! (c mod length ps))"

definition advance ::
  "'v env \<Rightarrow> AIApiConfig \<Rightarrow> MetadataTemplate \<Rightarrow> bool \<Rightarrow> nat \<Rightarrow> (TFile \<times> task) list
     \<Rightarrow> BatchResults \<times> 'v world \<Rightarrow> (TFile \<times> task) list \<times> BatchResults \<times> 'v world" where
  "advance env config template' replaceExisting k pool st =
     (let file = fst (pool ! k);
          (s, w) = resumeStep env config template' replaceExisting file (snd (pool ! k)) (snd st);
          (t, r) = settle file s (fst st)
      in (pool[k := (file, t)], r, w))"

text \<open>The number of \<open>await\<close>s a task can still meet.\<close>

fun rank :: "task \<Rightarrow> nat" where
  "rank AwaitRead = 6"
| "rank (AwaitApi startTime settled) = 5"
| "rank (AwaitGenerate response) = 4"
| "rank (AwaitInsertRead response) = 3"
| "rank (AwaitModify response newContent) = 2"
| "rank (AwaitInsert response settled) = 1"
| "rank Finished = 0"

function runPool ::
  "'v env \<Rightarrow> AIApiConfig \<Rightarrow> MetadataTemplate \<Rightarrow> bool \<Rightarrow> nat list \<Rightarrow> (TFile \<times> task) list
     \<Rightarrow> BatchResults \<times> 'v world \<Rightarrow> BatchResults \<times> 'v world" where
  "runPool env config template' replaceExisting sched pool st =
     (if pending pool = [] then st
      else runPool env config template' replaceExisting (tl sched)
             (fst (advance env config template' replaceExisting (pick sched (pending pool))
                     pool st))
             (snd (advance env config template' replaceExisting (pick sched (pending pool))
                     pool st)))"
  by pat_completeness auto
termination
proof (relation "measure (\<lambda>(env, config, template', replaceExisting, sched, pool, st).
                            sum_list (map (\<lambda>x. rank (snd x)) pool))", goal_cases)
  case 1
  show ?case by simp
next
  case (2 env config template' replaceExisting sched pool st)
  let ?k = "pick sched (pending pool)"
  have "?k \<in> set (pending pool)" using 2 by (cases sched) (simp_all add: pick_def)
  then have k: "?k < length pool" and nf: "snd (pool ! ?k) \<noteq> Finished"
    by (auto simp: pending_def)
  let ?file = "fst (pool ! ?k)"
  let ?s = "fst (resumeStep env config template' replaceExisting ?file (snd (pool ! ?k)) (snd st))"
  let ?t = "fst (settle ?file ?s (fst st))"
  have upd: "fst (advance env config template' replaceExisting ?k pool st) = pool[?k := (?file, ?t)]"
    by (simp add: advance_def Let_def split_def)
  have lt: "rank ?t < rank (snd (pool ! ?k))"
    using nf
    by (cases "snd (pool ! ?k)")
       (auto simp: resumeStep_def settle_def Let_def split: sum.splits prod.splits if_splits)
  have "map (\<lambda>x. rank (snd x)) (pool[?k := (?file, ?t)])
          = (map (\<lambda>x. rank (snd x)) pool)[?k := rank ?t]"
    by (simp add: map_update)
  moreover have "sum_list ((map (\<lambda>x. rank (snd x)) pool)[?k := rank ?t])
                   = sum_list (map (\<lambda>x. rank (snd x)) pool) + rank ?t
                     - (map (\<lambda>x. rank (snd x)) pool) ! ?k"
    using k by (simp add: sum_list_update)
  moreover have "(map (\<lambda>x. rank (snd x)) pool) ! ?k \<le> sum_list (map (\<lambda>x. rank (snd x)) pool)"
    using k by (simp add: member_le_sum_list)
  ultimately show ?case using lt k upd by simp
qed

declare runPool.simps [simp del]

text \<open>One window: the callbacks are started, then \<open>Promise.all\<close> is awaited.\<close>

definition batchWindow ::
  "'v env \<Rightarrow> AIApiConfig \<Rightarrow> MetadataTemplate \<Rightarrow> bool
     \<Rightarrow> (int \<Rightarrow> nat \<Rightarrow> jsstring \<Rightarrow> thrown option) option
     \<Rightarrow> nat \<Rightarrow> int \<Rightarrow> TFile list \<Rightarrow> nat list \<Rightarrow> BatchResults \<times> 'v world
     \<Rightarrow> BatchResults \<times> 'v world" where
  "batchWindow env config template' replaceExisting onProgress nfiles i batch sched st =
     (let (pool, r) = startAll onProgress nfiles i batch batch (fst st)
      in runPool env config template' replaceExisting sched pool (r, snd st))"

text \<open>
  \<open>for (let i = 0; i < files.length; i += maxConcurrent)\<close>. With \<open>maxConcurrent \<le> 0\<close> the
  loop never ends on a non-empty list; \<open>None\<close> is that outcome. \<open>schedule i\<close> is the
  schedule of the window that starts at index \<open>i\<close>.
\<close>

partial_function (option) batchLoop ::
  "'v env \<Rightarrow> AIApiConfig \<Rightarrow> MetadataTemplate \<Rightarrow> bool
     \<Rightarrow> (int \<Rightarrow> nat \<Rightarrow> jsstring \<Rightarrow> thrown option) option
     \<Rightarrow> int \<Rightarrow> (int \<Rightarrow> nat list) \<Rightarrow> TFile list \<Rightarrow> int \<Rightarrow> BatchResults \<times> 'v world
     \<Rightarrow> (BatchResults \<times> 'v world) option" where
  "batchLoop env config template' replaceExisting onProgress maxConcurrent schedule files i st =
     (if i < int (length files)
      then batchLoop env config template' replaceExisting onProgress maxConcurrent schedule
             files (i + maxConcurrent)
             (batchWindow env config template' replaceExisting onProgress (length files) i
                (jsSlice files i (i + maxConcurrent)) (schedule i) st)
      else Some st)"

declare batchLoop.simps [code]

text \<open>
  \<open>batchGenerate\<close>. The schedule is not an argument of the source function: it stands for
  the order in which the event loop lets the callbacks of each window go on.
\<close>

definition batchGenerate ::
  "'v env \<Rightarrow> AIApiConfig \<Rightarrow> TemplateMap \<Rightarrow> TFile list \<Rightarrow> jsstring \<Rightarrow> BatchOptions
     \<Rightarrow> (int \<Rightarrow> nat list) \<Rightarrow> 'v world \<Rightarrow> ((thrown + BatchResults) \<times> 'v world) option" where
  "batchGenerate env config templates files templateId options schedule w =
     (case getTemplate templates templateId of
        None \<Rightarrow> Some (Inl (Error (js ''Template does not exist'')), w)
      | Some template' \<Rightarrow>
          map_option (\<lambda>st. (Inr (fst st), snd st))
            (batchLoop env config template'
               (orElse (opt_replaceExisting options) False)
               (opt_onProgress options)
               (orElse (opt_maxConcurrent options) 3)
               schedule files 0
               (\<lparr>results_success = 0, results_failed = 0, results_errors = []\<rparr>, w)))"

section \<open>A sample environment\<close>

text \<open>
  A small concrete environment, used to run the definitions on explicit inputs: the vault
  is a map from files to their text, a missing file cannot be read or written, every
  request is answered with the same completion, and the clock advances by one second at
  each reading.
\<close>

definition sampleReply :: OpenAIResponse where
  "sampleReply =
     \<lparr>choices = Some [Some (js ''title: \"Sample Note\"'')], usage_total_tokens = Some 7\<rparr>"

definition sampleEnv :: "(TFile \<Rightarrow> jsstring option) env" where
  "sampleEnv =
     \<lparr>vault_read = (\<lambda>v f. case v f of
                              None \<Rightarrow> Inl (Error (js ''File not found''))
                            | Some text \<Rightarrow> Inr text),
      vault_modify = (\<lambda>v f text. case v f of
                                   None \<Rightarrow> Inl (Error (js ''File not found''))
                                 | Some _ \<Rightarrow> Inr (v(f := Some text))),
      fetch = (\<lambda>n request. Json sampleReply),
      clock = (\<lambda>n. 1000 * int n),
      toISOString = (\<lambda>t. js ''2024-01-01T00:00:00.000Z''),
      lowerNonAscii = (\<lambda>c. [c]),
      getLanguageSpecificPrompt = (\<lambda>l. (js ''role'', js ''instruction'')),
      getLanguageLabels = (\<lambda>l. (js ''File: '', js ''Content:'', js ''Existing:'', js ''Update.''))\<rparr>"

definition zeroStats :: UsageStats where
  "zeroStats =
     \<lparr>totalRequests = 0, successfulRequests = 0, failedRequests = 0, totalTokensUsed = 0,
      averageProcessingTime = 0, lastResetDate = 0, lastUsed = 1\<rparr>"

definition sampleFile :: "string \<Rightarrow> TFile" where
  "sampleFile n = \<lparr>name = js n, path = js n\<rparr>"

definition sampleWorld :: "(TFile \<Rightarrow> jsstring option) \<Rightarrow> (TFile \<Rightarrow> jsstring option) world" where
  "sampleWorld v =
     \<lparr>vault = v, sent = [], ticks = 0,
      statsObjs = (\<lambda>a. zeroStats), dateObjs = (\<lambda>a. 0), nextAddr = 3, usageStats = 2\<rparr>"

definition sampleConfig :: "jsstring \<Rightarrow> AIApiConfig" where
  "sampleConfig key =
     \<lparr>provider = js ''openai'', apiKey = key, baseUrl = js ''https://api.openai.com/v1'',
      model = js ''gpt-3.5-turbo'', temperature = 7 / 10, maxTokens = 1000, timeout = 30000\<rparr>"

definition sampleTemplate :: "string \<Rightarrow> bool \<Rightarrow> MetadataTemplate" where
  "sampleTemplate i builtIn =
     \<lparr>tid = js i, tname = js ''General Note'', description = js ''notes'',
      yamlStructure = js ''title: \"\"'', aiPrompt = js ''Generate a title.'',
      isBuiltIn = builtIn, createdAt = 0, updatedAt = 0\<rparr>"




section \<open>Definitions that follow the specification\<close>

text \<open>
  The front-matter layout in the words of the specification: the document starts with a
  line that is exactly \<open>---\<close> and a later line is exactly \<open>---\<close>. The result is the lines
  between the first line and the first such later line, and the lines after it.
\<close>

definition spec_frontMatterLines :: "jsstring \<Rightarrow> (jsstring list \<times> jsstring list) option" where
  "spec_frontMatterLines text =
     (case splitOn NL text of
        [] \<Rightarrow> None
      | first # rest \<Rightarrow>
          if first = js ''---'' \<and> js ''---'' \<in> set rest
          then Some (takeWhile (\<lambda>l. l \<noteq> js ''---'') rest,
                     drop 1 (dropWhile (\<lambda>l. l \<noteq> js ''---'') rest))
          else None)"

text \<open>
  Tag normalisation in the words of the specification. A tag with a CJK ideograph keeps
  its letters, digits and CJK characters and loses white space, underscores and every
  other symbol; nothing else changes. Any other tag is lower-cased, every white-space
  character, underscore and other non-word character becomes a hyphen, repeated hyphens
  collapse to one, and leading and trailing hyphens are trimmed.
\<close>

definition spec_cjkTag :: "jsstring \<Rightarrow> jsstring" where
  "spec_cjkTag s =
     filter (\<lambda>c. \<not> isSpace c \<and> c \<noteq> 95
                  \<and> (isWordChar c \<or> isHan c \<or> isKana c \<or> isHangul c)) s"

definition toHyphen :: "nat \<Rightarrow> nat" where
  "toHyphen c = (if isWordChar c \<and> c \<noteq> 95 then c else HYPHEN)"

fun squeeze :: "jsstring \<Rightarrow> jsstring" where
  "squeeze (x # y # xs) =
     (if x = HYPHEN \<and> y = HYPHEN then squeeze (y # xs) else x # squeeze (y # xs))"
| "squeeze xs = xs"

definition trimHyphens :: "jsstring \<Rightarrow> jsstring" where
  "trimHyphens s =
     rev (dropWhile (\<lambda>c. c = HYPHEN) (rev (dropWhile (\<lambda>c. c = HYPHEN) s)))"

definition spec_latinTag :: "(nat \<Rightarrow> jsstring) \<Rightarrow> jsstring \<Rightarrow> jsstring" where
  "spec_latinTag lower s = trimHyphens (squeeze (map toHyphen (toLowerCase lower s)))"

text \<open>Replacing every maximal run of characters of a class by a fixed text.\<close>

function collapseRuns :: "(nat \<Rightarrow> bool) \<Rightarrow> jsstring \<Rightarrow> jsstring \<Rightarrow> jsstring" where
  "collapseRuns P rep [] = []"
| "collapseRuns P rep (x # xs) =
     (if P x then rep @ collapseRuns P rep (dropWhile P xs) else x # collapseRuns P rep xs)"
  by pat_completeness auto
termination
  by (relation "measure (\<lambda>(P, rep, s). length s)")
     (auto simp: length_dropWhile_le le_imp_less_Suc)

section \<open>Notions used by the statements\<close>

text \<open>
  The heap part of a state; the internal statistics object is allocated; \<open>frame w w'\<close>:
  going from \<open>w\<close> to \<open>w'\<close> only allocates, keeps \<open>this.usageStats\<close> allocated, and changes
  no \<open>UsageStats\<close> object of \<open>w\<close> other than the internal one.
\<close>

definition heapOf :: "'v world \<Rightarrow> (addr \<Rightarrow> UsageStats) \<times> (addr \<Rightarrow> int) \<times> addr \<times> addr" where
  "heapOf w = (statsObjs w, dateObjs w, nextAddr w, usageStats w)"

definition allocated :: "'v world \<Rightarrow> bool" where
  "allocated w = (usageStats w < nextAddr w)"

definition frame :: "'v world \<Rightarrow> 'v world \<Rightarrow> bool" where
  "frame w w' =
     (nextAddr w \<le> nextAddr w' \<and> usageStats w' < nextAddr w'
      \<and> (usageStats w' = usageStats w \<or> nextAddr w \<le> usageStats w')
      \<and> (\<forall>b. b < nextAddr w \<and> b \<noteq> usageStats w \<longrightarrow> statsObjs w' b = statsObjs w b))"

text \<open>
  \<open>later env w w'\<close>: the state \<open>w'\<close> is reached from \<open>w\<close> by any number of calls of the
  public operations of the orchestrator, with any arguments.
\<close>

inductive later :: "'v env \<Rightarrow> 'v world \<Rightarrow> 'v world \<Rightarrow> bool" for env :: "'v env" where
  later_refl: "later env w w"
| later_generate:
    "later env w w1 \<Longrightarrow>
     generateWithTemplate env config file t d preview w1 = (r, w2) \<Longrightarrow> later env w w2"
| later_batch:
    "later env w w1 \<Longrightarrow>
     batchGenerate env config templates files i options schedule w1 = Some (rb, w2) \<Longrightarrow> later env w w2"
| later_insert:
    "later env w w1 \<Longrightarrow> insertMetadata env file m rep w1 = (ri, w2) \<Longrightarrow> later env w w2"
| later_reset: "later env w w1 \<Longrightarrow> later env w (resetUsageStats env w1)"
| later_snapshot: "later env w w1 \<Longrightarrow> getUsageStats w1 = (b, w2) \<Longrightarrow> later env w w2"

text \<open>
  Notions for the statements about \<open>batchGenerate\<close>. The entry the \<open>catch\<close> block records
  for a file. A log lists, in the order in which the callbacks ended, the index of the
  document and how its \<open>try\<close> block ended (\<open>None\<close>: it reached its end; \<open>Some e\<close>: it
  threw \<open>e\<close>). \<open>tally r files lg\<close> is the result \<open>r\<close> after the callbacks of the log have
  ended.
\<close>

definition entry :: "TFile \<Rightarrow> thrown \<Rightarrow> jsstring" where
  "entry file e = name file @ js '': '' @ thrownMessage e"












text \<open>
  Auxiliary list functions for the hyphen steps of \<open>formatSingleTag\<close>: dropping one
  trailing hyphen, dropping one hyphen at each edge, \<open>squeeze\<close> of a list from its head
  and the \<open>squeeze\<close> of its tail, and the lists without two adjacent hyphens.
\<close>

definition dropTrailingHyphen :: "jsstring \<Rightarrow> jsstring" where
  "dropTrailingHyphen a = (if a \<noteq> [] \<and> last a = HYPHEN then butlast a else a)"

definition stripEdge :: "jsstring \<Rightarrow> jsstring" where
  "stripEdge a =
     (case a of
        [] \<Rightarrow> []
      | x # xs \<Rightarrow> if x = HYPHEN then dropTrailingHyphen xs else dropTrailingHyphen (x # xs))"

definition squeezeCons :: "nat \<Rightarrow> jsstring \<Rightarrow> jsstring" where
  "squeezeCons x ys =
     (case ys of [] \<Rightarrow> [x] | z # zs \<Rightarrow> if x = HYPHEN \<and> z = HYPHEN then z # zs else x # z # zs)"

fun noAdjacent :: "jsstring \<Rightarrow> bool" where
  "noAdjacent (x # y # xs) = (\<not> (x = HYPHEN \<and> y = HYPHEN) \<and> noAdjacent (y # xs))"
| "noAdjacent xs = True"



text \<open>
  Notions for the front-matter statements. \<open>occursIn p s\<close>: the text \<open>p\<close> occurs somewhere
  in \<open>s\<close>. \<open>closingDelimiter c\<close>: the first index from 3 on at which the three characters
  \<open>---\<close> occur in \<open>c\<close>, if there is one. \<open>writeBack\<close>: the call of \<open>vault.modify\<close> that ends
  \<open>insertMetadata\<close>, whose rejection is the rejection of \<open>insertMetadata\<close>.
\<close>

definition occursIn :: "jsstring \<Rightarrow> jsstring \<Rightarrow> bool" where
  "occursIn p s = (\<exists>k<length s. take (length p) (drop k s) = p)"

definition closingDelimiter :: "jsstring \<Rightarrow> nat option" where
  "closingDelimiter c =
     List.find (\<lambda>e. take 3 (drop e c) = js ''---'') [3..<Suc (length c)]"

definition writeBack :: "'v env \<Rightarrow> TFile \<Rightarrow> jsstring \<Rightarrow> 'v world \<Rightarrow> (thrown + unit) \<times> 'v world" where
  "writeBack env file text w =
     (case vault_modify env (vault w) file text of
        Inl e \<Rightarrow> (Inl e, w)
      | Inr v' \<Rightarrow> (Inr (), w\<lparr>vault := v'\<rparr>))"









section \<open>Verified properties\<close>

subsection \<open>Front matter\<close>




lemma indexOfAux_skip:
  "(\<forall>j<length xs. \<not> startsWith (drop j (xs @ ys)) p) \<Longrightarrow>
     indexOfAux p (xs @ ys) i = indexOfAux p ys (i + length xs)"
proof (induction xs arbitrary: i)
  case Nil
  then show ?case by simp
next
  case (Cons x xs)
  have h0: "\<not> startsWith ((x # xs) @ ys) p" using Cons.prems by force
  have "\<forall>j<length xs. \<not> startsWith (drop j (xs @ ys)) p"
  proof (intro allI impI)
    fix j assume "j < length xs"
    then have "Suc j < length (x # xs)" by simp
    then have "\<not> startsWith (drop (Suc j) ((x # xs) @ ys)) p" using Cons.prems by blast
    then show "\<not> startsWith (drop j (xs @ ys)) p" by simp
  qed
  then have "indexOfAux p (xs @ ys) (Suc i) = indexOfAux p ys (Suc i + length xs)"
    by (rule Cons.IH)
  then show ?case using h0 by simp
qed

lemma indexOfAux_hit: "indexOfAux p (p @ zs) i = Some i"
proof (cases "p @ zs")
  case Nil
  then show ?thesis by simp
next
  case (Cons a list)
  have "startsWith (p @ zs) p" by (simp add: startsWith_def)
  then show ?thesis using Cons by simp
qed

lemma indexOfAux_None_D:
  "indexOfAux p xs i = None \<Longrightarrow> j \<le> length xs \<Longrightarrow> \<not> startsWith (drop j xs) p"
proof (induction xs arbitrary: i j)
  case Nil
  then show ?case by (auto simp: startsWith_def split: if_splits)
next
  case (Cons x xs)
  show ?case
  proof (cases j)
    case 0
    then show ?thesis using Cons.prems by (auto split: if_splits)
  next
    case (Suc k)
    then show ?thesis using Cons.prems Cons.IH[of "Suc i" k] by (auto split: if_splits)
  qed
qed

lemma no_straddle:
  assumes "xs \<noteq> []" and "last xs \<notin> set p" and "\<not> startsWith xs p"
  shows "\<not> startsWith (xs @ ys) p"
proof
  assume "startsWith (xs @ ys) p"
  then have eq: "take (length p) xs @ take (length p - length xs) ys = p"
    by (simp add: startsWith_def)
  show False
  proof (cases "length p \<le> length xs")
    case True
    then show False using eq assms(3) by (simp add: startsWith_def)
  next
    case False
    then have "xs @ take (length p - length xs) ys = p" using eq by simp
    then have "set xs \<subseteq> set p" by (metis set_append Un_upper1)
    then show False using assms(1,2) last_in_set by blast
  qed
qed

lemma no_delim_in_block:
  assumes nl: "meta = [] \<or> last meta = NL"
    and none: "indexOf meta (js ''---'') 0 = None"
    and j: "j < length meta"
  shows "\<not> startsWith (drop j (meta @ js ''---'' @ rest)) (js ''---'')"
proof -
  have inner: "\<not> startsWith (drop j meta) (js ''---'')"
    using indexOfAux_None_D[of "js ''---''" meta 0 j] none j by (simp add: indexOf_def)
  have dne: "drop j meta \<noteq> []" using j by simp
  have "last (drop j meta) = NL" using nl j by (cases "meta = []") (auto simp: last_drop)
  then have lastd: "last (drop j meta) \<notin> set (js ''---'')" by (simp add: js_def)
  have "drop j (meta @ js ''---'' @ rest) = drop j meta @ js ''---'' @ rest" using j by simp
  then show ?thesis using no_straddle[OF dne lastd inner] by simp
qed

lemma closing_delimiter_found:
  assumes nl: "meta = [] \<or> last meta = NL"
    and none: "indexOf meta (js ''---'') 0 = None"
  shows "indexOf (js ''---\<newline>'' @ meta @ js ''---\<newline>'' @ rest) (js ''---'') 3
           = Some (4 + length meta)"
proof -
  let ?c = "js ''---\<newline>'' @ meta @ js ''---\<newline>'' @ rest"
  let ?ys = "js ''---'' @ NL # rest"
  have split: "drop 3 ?c = (NL # meta) @ ?ys"
    by (simp add: js_def)
  have len: "min 3 (length ?c) = 3" by (simp add: js_def)
  have "\<forall>j<length (NL # meta). \<not> startsWith (drop j ((NL # meta) @ ?ys)) (js ''---'')"
  proof (intro allI impI)
    fix j assume j: "j < length (NL # meta)"
    show "\<not> startsWith (drop j ((NL # meta) @ ?ys)) (js ''---'')"
    proof (cases j)
      case 0
      then show ?thesis by (simp add: startsWith_def js_def)
    next
      case (Suc k)
      then have "k < length meta" using j by simp
      then show ?thesis using no_delim_in_block[OF nl none, of k "NL # rest"] Suc by simp
    qed
  qed
  then have "indexOfAux (js ''---'') ((NL # meta) @ ?ys) 3
               = indexOfAux (js ''---'') ?ys (3 + length (NL # meta))"
    by (rule indexOfAux_skip)
  also have "\<dots> = Some (3 + length (NL # meta))" by (rule indexOfAux_hit)
  finally have "indexOfAux (js ''---'') (drop 3 ?c) (min 3 (length ?c))
                  = Some (3 + length (NL # meta))"
    by (simp only: split len)
  then show ?thesis by (simp add: indexOf_def)
qed

lemma indexOfAux_find:
  "i \<le> length c \<Longrightarrow>
   indexOfAux p (drop i c) i = List.find (\<lambda>e. startsWith (drop e c) p) [i..<Suc (length c)]"
proof (induction "length c - i" arbitrary: i)
  case 0
  then have i: "i = length c" by simp
  have "[length c..<Suc (length c)] = [length c]" by simp
  then show ?case unfolding i by (auto simp: startsWith_def)
next
  case (Suc n)
  then have lt: "i < length c" by simp
  have d: "drop i c = c ! i # drop (Suc i) c" using lt by (simp add: Cons_nth_drop_Suc)
  have u: "[i..<Suc (length c)] = i # [Suc i..<Suc (length c)]" using lt by (simp add: upt_conv_Cons)
  have ih: "indexOfAux p (drop (Suc i) c) (Suc i)
              = List.find (\<lambda>e. startsWith (drop e c) p) [Suc i..<Suc (length c)]"
    using Suc.hyps(1)[of "Suc i"] Suc.hyps(2) lt by simp
  have "indexOfAux p (drop i c) i
          = (if startsWith (drop i c) p then Some i else indexOfAux p (drop (Suc i) c) (Suc i))"
    unfolding d by simp
  then show ?case unfolding u using ih by simp
qed

lemma indexOf_closingDelimiter: "indexOf c (js ''---'') 3 = closingDelimiter c"
proof (cases "3 \<le> length c")
  case True
  have len3: "length (js ''---'') = 3" by (simp add: js_def)
  have "indexOf c (js ''---'') 3 = indexOfAux (js ''---'') (drop 3 c) 3"
    using True by (simp add: indexOf_def min_def)
  also have "\<dots> = List.find (\<lambda>e. startsWith (drop e c) (js ''---'')) [3..<Suc (length c)]"
    by (rule indexOfAux_find[OF True])
  also have "\<dots> = closingDelimiter c"
    using len3 by (simp only: closingDelimiter_def startsWith_def)
  finally show ?thesis .
next
  case False
  then have "[3..<Suc (length c)] = []" by simp
  then have "closingDelimiter c = None" by (simp add: closingDelimiter_def)
  moreover have "indexOf c (js ''---'') 3 = None" using False by (simp add: indexOf_def js_def)
  ultimately show ?thesis by simp
qed

lemma closingDelimiter_SomeD:
  assumes "closingDelimiter c = Some e"
  shows "3 \<le> e" and "e + 3 \<le> length c" and "take 3 (drop e c) = js ''---''"
proof -
  from assms obtain i where i: "i < length [3..<Suc (length c)]"
    "take 3 (drop ([3..<Suc (length c)] ! i) c) = js ''---''" "e = [3..<Suc (length c)] ! i"
    unfolding closingDelimiter_def find_Some_iff by blast
  have e: "e = 3 + i" using i(1,3) by (simp del: upt_Suc)
  show "3 \<le> e" using e by simp
  show t: "take 3 (drop e c) = js ''---''" using i(2,3) by simp
  have "length (take 3 (drop e c)) = 3" unfolding t by (simp add: js_def)
  then show "e + 3 \<le> length c" by simp
qed

lemma substring_block:
  assumes "closingDelimiter c = Some e"
  shows "substring c 4 e = (if e = 3 then [45] else take (e - 4) (drop 4 c))"
proof -
  note d = closingDelimiter_SomeD[OF assms]
  show ?thesis
  proof (cases "e = 3")
    case True
    have "take 3 (drop 3 c) = [45, 45, 45]" using d(3) True by (simp add: js_def)
    then have "take 1 (take 3 (drop 3 c)) = [45]" by simp
    then have "take 1 (drop 3 c) = [45]" by simp
    then show ?thesis using True d(2) by (simp add: substring_def Let_def min_def max_def)
  next
    case False
    then show ?thesis using d(1,2) by (simp add: substring_def Let_def min_def max_def)
  qed
qed




lemma occursIn_indexOf:
  assumes "\<not> occursIn (js ''---'') block"
  shows "indexOf block (js ''---'') 0 = None"
proof -
  have "indexOf block (js ''---'') 0
          = List.find (\<lambda>e. startsWith (drop e block) (js ''---'')) [0..<Suc (length block)]"
    using indexOfAux_find[of 0 block "js ''---''"] by (simp add: indexOf_def)
  moreover have "\<not> startsWith (drop e block) (js ''---'')" if "e \<in> set [0..<Suc (length block)]" for e
  proof (cases "e < length block")
    case True
    then show ?thesis using assms by (auto simp: occursIn_def startsWith_def js_def)
  next
    case False
    then have "drop e block = []" by simp
    then show ?thesis by (simp add: startsWith_def js_def)
  qed
  ultimately show ?thesis by (auto simp: find_None_iff)
qed

lemmas frontMatter_eval =
  insertMetadataContent_def extractExistingMetadataContent_def extractDocumentContent_def
  js_def startsWith_def indexOf_def substring_def substringFrom_def mergeMetadata_def
  nonBlankLines_def trim_def isSpace_def colonKey_def




text \<open>
  Claim C2, as stated: a front-matter block is recognised exactly when the document
  starts with a line \<open>---\<close> and a later line is \<open>---\<close>, only the text between those
  lines is read, and a \<open>---\<close> anywhere else is never a delimiter. The code looks for the
  characters, not for lines. In the first document the first line is \<open>---title---\<close>, so
  there is no front matter, yet replacing removes that line as if it were a block. In the
  second the block is the lines \<open>title: a---b\<close> and \<open>tags: [x]\<close>, yet the \<open>---\<close> inside the
  title ends the block: the existing metadata read is \<open>title: a\<close>, and replacing leaves
  the rest of the old block in the body.
\<close>

theorem frontMatter_delimiter_counterexample:
  "spec_frontMatterLines (js ''---title---\<newline>body'') = None
   \<and> fst (insertMetadata sampleEnv (sampleFile ''a.md'') (js ''k: v'') True
            (sampleWorld (Map.empty(sampleFile ''a.md'' \<mapsto> js ''---title---\<newline>body''))))
       = Inr ()
   \<and> vault (snd (insertMetadata sampleEnv (sampleFile ''a.md'') (js ''k: v'') True
            (sampleWorld (Map.empty(sampleFile ''a.md'' \<mapsto> js ''---title---\<newline>body'')))))
        (sampleFile ''a.md'')
       = Some (js ''---\<newline>k: v\<newline>---\<newline>body'')
   \<and> spec_frontMatterLines (js ''---\<newline>title: a---b\<newline>tags: [x]\<newline>---\<newline>body'')
       = Some ([js ''title: a---b'', js ''tags: [x]''], [js ''body''])
   \<and> extractExistingMetadataContent
         (js ''---\<newline>title: a---b\<newline>tags: [x]\<newline>---\<newline>body'')
       = Some (js ''title: a'')
   \<and> vault (snd (insertMetadata sampleEnv (sampleFile ''a.md'') (js ''k: v'') True
            (sampleWorld (Map.empty(sampleFile ''a.md'' \<mapsto>
               js ''---\<newline>title: a---b\<newline>tags: [x]\<newline>---\<newline>body'')))))
        (sampleFile ''a.md'')
       = Some (js ''---\<newline>k: v\<newline>---\<newline>\<newline>tags: [x]\<newline>---\<newline>body'')"
  by (simp add: spec_frontMatterLines_def frontMatter_eval insertMetadata_def sampleEnv_def
      sampleWorld_def sampleFile_def)

text \<open>
  Claim C2, amended. \<open>insertMetadata\<close> and the two extraction functions find the
  delimiters by character search. A block is recognised exactly when the text starts with
  the three characters \<open>---\<close> and these characters occur again at an index from 3 on; the
  block then ends at the first such index \<open>e\<close>: the metadata read and merged is the text
  from index 4 up to \<open>e\<close> (the single character at index 3 when \<open>e = 3\<close>), and the body
  kept is the text from index \<open>e + 4\<close> on. When no block is recognised, the new block and
  an empty line are put before the unchanged text, no existing metadata is read and the
  whole text is the body. In particular, for a document that starts with a \<open>---\<close> line,
  whose block is made of complete lines in which \<open>---\<close> does not occur, and whose block is
  closed by a \<open>---\<close> line, exactly the text between the two delimiter lines is read, merged
  or replaced, and the body after the closing line is kept unchanged.
\<close>

theorem frontMatter_between_delimiter_lines:
  assumes read: "vault_read env (vault w) file = Inr c"
  shows
    "(\<not> startsWith c (js ''---'') \<or> closingDelimiter c = None \<longrightarrow>
        insertMetadata env file m r w
          = writeBack env file (js ''---\<newline>'' @ m @ js ''\<newline>---\<newline>\<newline>'' @ c) w
        \<and> extractExistingMetadataContent c = None
        \<and> extractDocumentContent c = trim c)
     \<and> (\<forall>e. startsWith c (js ''---'') \<and> closingDelimiter c = Some e \<longrightarrow>
          insertMetadata env file m True w
            = writeBack env file (js ''---\<newline>'' @ m @ js ''\<newline>---\<newline>'' @ drop (e + 4) c) w
          \<and> insertMetadata env file m False w
            = writeBack env file
                (js ''---\<newline>''
                 @ mergeMetadata (if e = 3 then [45] else take (e - 4) (drop 4 c)) m
                 @ js ''\<newline>---\<newline>'' @ drop (e + 4) c) w
          \<and> extractExistingMetadataContent c
            = Some (trim (if e = 3 then [45] else take (e - 4) (drop 4 c)))
          \<and> extractDocumentContent c = trim (drop (e + 4) c))
     \<and> (\<forall>block rest.
          c = js ''---\<newline>'' @ block @ js ''---\<newline>'' @ rest
          \<and> (block = [] \<or> last block = NL) \<and> \<not> occursIn (js ''---'') block \<longrightarrow>
          insertMetadata env file m True w
            = writeBack env file (js ''---\<newline>'' @ m @ js ''\<newline>---\<newline>'' @ rest) w
          \<and> insertMetadata env file m False w
            = writeBack env file
                (js ''---\<newline>'' @ mergeMetadata block m @ js ''\<newline>---\<newline>'' @ rest) w
          \<and> extractExistingMetadataContent c = Some (trim block)
          \<and> extractDocumentContent c = trim rest)"
proof (intro conjI allI impI)
  have ins: "insertMetadata env file m r' w = writeBack env file (insertMetadataContent c m r') w"
    for r'
    using read by (simp add: insertMetadata_def writeBack_def)
  {
    assume h: "\<not> startsWith c (js ''---'') \<or> closingDelimiter c = None"
    then have "insertMetadataContent c m r = js ''---\<newline>'' @ m @ js ''\<newline>---\<newline>\<newline>'' @ c"
      by (auto simp: insertMetadataContent_def indexOf_closingDelimiter)
    then show "insertMetadata env file m r w
          = writeBack env file (js ''---\<newline>'' @ m @ js ''\<newline>---\<newline>\<newline>'' @ c) w"
      using ins by simp
    show "extractExistingMetadataContent c = None"
      using h by (auto simp: extractExistingMetadataContent_def indexOf_closingDelimiter)
    show "extractDocumentContent c = trim c"
      using h by (auto simp: extractDocumentContent_def indexOf_closingDelimiter)
  }
  {
    fix e
    assume h: "startsWith c (js ''---'') \<and> closingDelimiter c = Some e"
    then have sw: "startsWith c (js ''---'')" and cd: "indexOf c (js ''---'') 3 = Some e"
      by (simp_all add: indexOf_closingDelimiter)
    have sub: "substring c 4 e = (if e = 3 then [45] else take (e - 4) (drop 4 c))"
      using h by (intro substring_block) simp
    have "insertMetadataContent c m True
            = js ''---\<newline>'' @ m @ js ''\<newline>---\<newline>'' @ drop (e + 4) c"
      by (simp only: insertMetadataContent_def sw cd substringFrom_def if_True option.case)
    then show "insertMetadata env file m True w
            = writeBack env file (js ''---\<newline>'' @ m @ js ''\<newline>---\<newline>'' @ drop (e + 4) c) w"
      using ins by simp
    have "insertMetadataContent c m False
            = js ''---\<newline>''
                 @ mergeMetadata (if e = 3 then [45] else take (e - 4) (drop 4 c)) m
                 @ js ''\<newline>---\<newline>'' @ drop (e + 4) c"
      by (simp only: insertMetadataContent_def sw cd sub substringFrom_def if_True if_False
          option.case Let_def)
    then show "insertMetadata env file m False w
            = writeBack env file
                (js ''---\<newline>''
                 @ mergeMetadata (if e = 3 then [45] else take (e - 4) (drop 4 c)) m
                 @ js ''\<newline>---\<newline>'' @ drop (e + 4) c) w"
      using ins by simp
    show "extractExistingMetadataContent c
            = Some (trim (if e = 3 then [45] else take (e - 4) (drop 4 c)))"
      by (simp only: extractExistingMetadataContent_def sw cd sub if_True option.case)
    show "extractDocumentContent c = trim (drop (e + 4) c)"
      by (simp only: extractDocumentContent_def sw cd substringFrom_def if_True option.case)
  }
  {
    fix block rest
    assume h: "c = js ''---\<newline>'' @ block @ js ''---\<newline>'' @ rest
          \<and> (block = [] \<or> last block = NL) \<and> \<not> occursIn (js ''---'') block"
    then have c: "c = js ''---\<newline>'' @ block @ js ''---\<newline>'' @ rest"
      and nl: "block = [] \<or> last block = NL"
      and none: "indexOf block (js ''---'') 0 = None"
      by (simp_all add: occursIn_indexOf)
    have sw: "startsWith c (js ''---'')" unfolding c by (simp add: startsWith_def js_def)
    have ix: "indexOf c (js ''---'') 3 = Some (4 + length block)"
      unfolding c by (rule closing_delimiter_found[OF nl none])
    have sub: "substring c 4 (4 + length block) = block"
      unfolding c by (simp add: substring_def js_def Let_def min_def max_def)
    have "length (js ''---\<newline>'' @ block @ js ''---\<newline>'') = 4 + length block + 4"
      by (simp add: js_def)
    then have "drop (4 + length block + 4) ((js ''---\<newline>'' @ block @ js ''---\<newline>'') @ rest)
                 = rest"
      by (metis append_eq_conv_conj)
    then have rest: "substringFrom c (4 + length block + 4) = rest"
      unfolding c by (simp add: substringFrom_def)
    have "insertMetadataContent c m True = js ''---\<newline>'' @ m @ js ''\<newline>---\<newline>'' @ rest"
      by (simp only: insertMetadataContent_def sw ix rest if_True option.case)
    then show "insertMetadata env file m True w
            = writeBack env file (js ''---\<newline>'' @ m @ js ''\<newline>---\<newline>'' @ rest) w"
      using ins by simp
    have "insertMetadataContent c m False
            = js ''---\<newline>'' @ mergeMetadata block m @ js ''\<newline>---\<newline>'' @ rest"
      by (simp only: insertMetadataContent_def sw ix sub rest if_True if_False option.case
          Let_def)
    then show "insertMetadata env file m False w
            = writeBack env file
                (js ''---\<newline>'' @ mergeMetadata block m @ js ''\<newline>---\<newline>'' @ rest) w"
      using ins by simp
    show "extractExistingMetadataContent c = Some (trim block)"
      by (simp only: extractExistingMetadataContent_def sw ix sub if_True option.case)
    show "extractDocumentContent c = trim rest"
      by (simp only: extractDocumentContent_def sw ix rest if_True option.case)
  }
qed

theorem frontMatter_between_delimiter_lines_witness:
  "closingDelimiter (js ''body'') = None
   \<and> insertMetadata sampleEnv (sampleFile ''a.md'') (js ''k: v'') False
        (sampleWorld (Map.empty(sampleFile ''a.md'' \<mapsto> js ''body'')))
       = (Inr (), sampleWorld (Map.empty(sampleFile ''a.md'' \<mapsto> js ''---\<newline>k: v\<newline>---\<newline>\<newline>body'')))
   \<and> startsWith (js ''---title---\<newline>body'') (js ''---'')
   \<and> closingDelimiter (js ''---title---\<newline>body'') = Some 8
   \<and> insertMetadata sampleEnv (sampleFile ''a.md'') (js ''k: v'') True
        (sampleWorld (Map.empty(sampleFile ''a.md'' \<mapsto> js ''---title---\<newline>body'')))
       = (Inr (), sampleWorld (Map.empty(sampleFile ''a.md'' \<mapsto> js ''---\<newline>k: v\<newline>---\<newline>body'')))
   \<and> \<not> occursIn (js ''---'') (js ''created: 2023-01-01\<newline>'')
   \<and> insertMetadata sampleEnv (sampleFile ''a.md'') (js ''title: x'') False
        (sampleWorld (Map.empty(sampleFile ''a.md'' \<mapsto>
           js ''---\<newline>created: 2023-01-01\<newline>---\<newline>body'')))
       = (Inr (), sampleWorld (Map.empty(sampleFile ''a.md'' \<mapsto>
           js ''---\<newline>title: x\<newline>created: 2023-01-01\<newline>---\<newline>body'')))
   \<and> extractExistingMetadataContent (js ''---\<newline>created: 2023-01-01\<newline>---\<newline>body'')
       = Some (js ''created: 2023-01-01'')"
proof -
  have rd: "vault_read sampleEnv (vault (sampleWorld (Map.empty(sampleFile ''a.md'' \<mapsto> x))))
              (sampleFile ''a.md'') = Inr x" for x
    by (simp add: sampleEnv_def sampleWorld_def)
  have wb: "writeBack sampleEnv (sampleFile ''a.md'') y
              (sampleWorld (Map.empty(sampleFile ''a.md'' \<mapsto> x)))
            = (Inr (), sampleWorld (Map.empty(sampleFile ''a.md'' \<mapsto> y)))" for x y
    by (simp add: writeBack_def sampleEnv_def sampleWorld_def)
  have c1: "closingDelimiter (js ''body'') = None"
    by (simp add: closingDelimiter_def js_def)
  have s2: "startsWith (js ''---title---\<newline>body'') (js ''---'')"
    by (simp add: startsWith_def js_def)
  have c2: "closingDelimiter (js ''---title---\<newline>body'') = Some 8"
    by (simp add: closingDelimiter_def js_def)
  have d2: "drop (8 + 4) (js ''---title---\<newline>body'') = js ''body''" by (simp add: js_def)
  have o3: "\<not> occursIn (js ''---'') (js ''created: 2023-01-01\<newline>'')"
    by (simp add: occursIn_def js_def Ex_less_Suc)
  have e3: "js ''---\<newline>created: 2023-01-01\<newline>---\<newline>body''
              = js ''---\<newline>'' @ js ''created: 2023-01-01\<newline>'' @ js ''---\<newline>'' @ js ''body''"
    by (simp add: js_def)
  have l3: "js ''created: 2023-01-01\<newline>'' = [] \<or> last (js ''created: 2023-01-01\<newline>'') = NL"
    by (simp add: js_def)
  have m3: "js ''---\<newline>'' @ mergeMetadata (js ''created: 2023-01-01\<newline>'') (js ''title: x'')
              @ js ''\<newline>---\<newline>'' @ js ''body''
            = js ''---\<newline>title: x\<newline>created: 2023-01-01\<newline>---\<newline>body''"
    by (simp add: frontMatter_eval)
  have t3: "trim (js ''created: 2023-01-01\<newline>'') = js ''created: 2023-01-01''"
    by (simp add: trim_def isSpace_def js_def)
  have a1: "insertMetadata sampleEnv (sampleFile ''a.md'') (js ''k: v'') False
        (sampleWorld (Map.empty(sampleFile ''a.md'' \<mapsto> js ''body'')))
       = (Inr (), sampleWorld (Map.empty(sampleFile ''a.md'' \<mapsto> js ''---\<newline>k: v\<newline>---\<newline>\<newline>body'')))"
    using frontMatter_between_delimiter_lines[OF rd, of "js ''body''" "js ''k: v''" False] c1
    by (simp add: wb) (simp add: js_def)
  have a2: "insertMetadata sampleEnv (sampleFile ''a.md'') (js ''k: v'') True
        (sampleWorld (Map.empty(sampleFile ''a.md'' \<mapsto> js ''---title---\<newline>body'')))
       = (Inr (), sampleWorld (Map.empty(sampleFile ''a.md'' \<mapsto> js ''---\<newline>k: v\<newline>---\<newline>body'')))"
    using frontMatter_between_delimiter_lines[OF rd, of "js ''---title---\<newline>body''" "js ''k: v''"]
      s2 c2 d2
    by (simp add: wb) (simp add: js_def)
  have a3: "insertMetadata sampleEnv (sampleFile ''a.md'') (js ''title: x'') False
        (sampleWorld (Map.empty(sampleFile ''a.md'' \<mapsto>
           js ''---\<newline>created: 2023-01-01\<newline>---\<newline>body'')))
       = (Inr (), sampleWorld (Map.empty(sampleFile ''a.md'' \<mapsto>
           js ''---\<newline>title: x\<newline>created: 2023-01-01\<newline>---\<newline>body'')))
     \<and> extractExistingMetadataContent (js ''---\<newline>created: 2023-01-01\<newline>---\<newline>body'')
       = Some (js ''created: 2023-01-01'')"
    using frontMatter_between_delimiter_lines[OF rd,
        of "js ''---\<newline>created: 2023-01-01\<newline>---\<newline>body''" "js ''title: x''"]
      o3 e3 l3 m3 t3
    by (metis wb)
  show ?thesis using c1 a1 s2 c2 a2 o3 a3 by blast
qed

subsection \<open>Template store\<close>

text \<open>
  Claim C7. For every id whose stored template is built-in, \<open>updateTemplate\<close> and
  \<open>deleteTemplate\<close> both return false and leave the store as it was: the same entries in
  the same order, the built-in entry with every field (so also \<open>updatedAt\<close>) unmodified.
  \<open>updateTemplate\<close> does not even read the clock.
\<close>

theorem updateTemplate_deleteTemplate_builtIn:
  assumes "getTemplate templates i = Some t" and "isBuiltIn t"
  shows "updateTemplate env i updates (templates, w) = (False, templates, w)
         \<and> deleteTemplate i templates = (False, templates)"
  using assms by (simp add: updateTemplate_def deleteTemplate_def getTemplate_def)

theorem updateTemplate_deleteTemplate_builtIn_witness:
  "getTemplate [(js ''general-note'', sampleTemplate ''general-note'' True)] (js ''general-note'')
     = Some (sampleTemplate ''general-note'' True)
   \<and> isBuiltIn (sampleTemplate ''general-note'' True)
   \<and> updateTemplate sampleEnv (js ''general-note'')
        \<lparr>upd_name = Some (js ''Renamed''), upd_description = None, upd_yamlStructure = None,
         upd_aiPrompt = None, upd_updatedAt = None\<rparr>
        ([(js ''general-note'', sampleTemplate ''general-note'' True)], sampleWorld Map.empty)
      = (False, [(js ''general-note'', sampleTemplate ''general-note'' True)],
         sampleWorld Map.empty)
   \<and> deleteTemplate (js ''general-note'')
        [(js ''general-note'', sampleTemplate ''general-note'' True)]
      = (False, [(js ''general-note'', sampleTemplate ''general-note'' True)])"
proof -
  have g: "getTemplate [(js ''general-note'', sampleTemplate ''general-note'' True)]
             (js ''general-note'')
           = Some (sampleTemplate ''general-note'' True)"
    by (simp add: getTemplate_def mapGet_def)
  have b: "isBuiltIn (sampleTemplate ''general-note'' True)" by (simp add: sampleTemplate_def)
  show ?thesis using g b updateTemplate_deleteTemplate_builtIn[OF g b] by simp
qed

subsection \<open>Generation client\<close>

text \<open>
  Claim C4. When the configured \<open>apiKey\<close> is the empty string, \<open>generateMetadata\<close>
  returns a result with \<open>success = false\<close> and \<open>error = "API_KEY_MISSING"\<close> (and no
  metadata), and no request is handed to \<open>fetch\<close>: the list of requests sent is unchanged.
\<close>

theorem generateMetadata_without_apiKey:
  assumes "apiKey config = []"
  shows "success (fst (generateMetadata env config request w)) = False
         \<and> error (fst (generateMetadata env config request w)) = Some (js ''API_KEY_MISSING'')
         \<and> metadata (fst (generateMetadata env config request w)) = None
         \<and> sent (snd (generateMetadata env config request w)) = sent w"
  using assms
  by (simp add: generateMetadata_def generateMetadataTry_def dateNow_def Let_def)

theorem generateMetadata_without_apiKey_witness:
  "apiKey (sampleConfig []) = []
   \<and> success (fst (generateMetadata sampleEnv (sampleConfig [])
        \<lparr>documentContent = js ''text'', fileName = js ''a.md'',
         template = sampleTemplate ''general-note'' True, existingMetadata = None\<rparr>
        (sampleWorld Map.empty))) = False
   \<and> sent (snd (generateMetadata sampleEnv (sampleConfig [])
        \<lparr>documentContent = js ''text'', fileName = js ''a.md'',
         template = sampleTemplate ''general-note'' True, existingMetadata = None\<rparr>
        (sampleWorld Map.empty))) = []"
proof -
  have k: "apiKey (sampleConfig []) = []" by (simp add: sampleConfig_def)
  show ?thesis
    using k generateMetadata_without_apiKey[OF k, of sampleEnv
        "\<lparr>documentContent = js ''text'', fileName = js ''a.md'',
         template = sampleTemplate ''general-note'' True, existingMetadata = None\<rparr>"
        "sampleWorld Map.empty"]
    by (simp add: sampleWorld_def)
qed

subsection \<open>Batch generation: the run of a window\<close>

text \<open>
  \<open>generateMetadata\<close> is its part before the \<open>await\<close> followed by its part after it.
\<close>

lemma generateMetadata_split:
  "generateMetadata env config request w =
     (case generateMetadataCall env config request w of
        (Inl response, w') \<Rightarrow> (response, w')
      | (Inr (startTime, settled), w') \<Rightarrow> generateMetadataResume env startTime settled w')"
  by (simp add: generateMetadata_def generateMetadataTry_def generateMetadataCall_def
      generateMetadataResume_def Let_def split_def split: sum.splits)









lemma advance_world:
  "snd (snd (advance env config tp rep k pool st))
     = snd (resumeStep env config tp rep (fst (pool ! k)) (snd (pool ! k)) (snd st))"
  by (simp add: advance_def Let_def split_def)


































subsection \<open>Usage statistics and the heap\<close>

lemma heapOf_dateNow: "dateNow env w = (t, w') \<Longrightarrow> heapOf w' = heapOf w"
  by (auto simp: dateNow_def heapOf_def)

lemma heapOf_currentDateText: "currentDateText env w = (d, w') \<Longrightarrow> heapOf w' = heapOf w"
  by (auto simp: currentDateText_def dateNow_def heapOf_def split_def Let_def)

lemma heapOf_validate:
  "validateAndFormatMetadata env m w = (r, w') \<Longrightarrow> heapOf w' = heapOf w"
  by (auto simp: validateAndFormatMetadata_def Let_def split: if_splits prod.splits
      dest: heapOf_currentDateText)

lemma heapOf_buildMessages: "buildMessages env request w = (ms, w') \<Longrightarrow> heapOf w' = heapOf w"
  by (auto simp: buildMessages_def buildSystemPrompt_def Let_def split: prod.splits
      dest: heapOf_currentDateText)

lemma heapOf_makeApiRequest:
  "makeApiRequest env config ms t w = (r, w') \<Longrightarrow> heapOf w' = heapOf w"
  by (auto simp: makeApiRequest_def Let_def heapOf_def split: FetchOutcome.splits option.splits if_splits)

lemma heapOf_generateMetadataTry:
  assumes "generateMetadataTry env config request w = (r, w')"
  shows "heapOf w' = heapOf w"
proof (cases "apiKey config = []")
  case True
  then show ?thesis using assms by (simp add: generateMetadataTry_def)
next
  case False
  obtain ms w1 where b: "buildMessages env request w = (ms, w1)"
    by (cases "buildMessages env request w")
  have h1: "heapOf w1 = heapOf w" by (rule heapOf_buildMessages[OF b])
  obtain r2 w2 where m: "makeApiRequest env config ms False w1 = (r2, w2)"
    by (cases "makeApiRequest env config ms False w1")
  have h2: "heapOf w2 = heapOf w" using heapOf_makeApiRequest[OF m] h1 by simp
  show ?thesis
  proof (cases r2)
    case (Inl e)
    then show ?thesis using assms False b m h2 by (simp add: generateMetadataTry_def)
  next
    case (Inr response)
    show ?thesis
    proof (cases "parseResponse response")
      case (Inl e)
      then show ?thesis using assms False b m h2 Inr by (simp add: generateMetadataTry_def)
    next
      case (Inr md)
      obtain r3 w3 where v: "validateAndFormatMetadata env md w2 = (r3, w3)"
        by (cases "validateAndFormatMetadata env md w2")
      have h3: "heapOf w3 = heapOf w" using heapOf_validate[OF v] h2 by simp
      show ?thesis using assms False b m \<open>r2 = Inr response\<close> Inr v h3
        by (cases r3) (auto simp: generateMetadataTry_def)
    qed
  qed
qed

lemma heapOf_generateMetadata:
  assumes "generateMetadata env config request w = (r, w')"
  shows "heapOf w' = heapOf w"
proof -
  obtain t w1 where a: "dateNow env w = (t, w1)" by (cases "dateNow env w")
  obtain o2 w2 where b: "generateMetadataTry env config request w1 = (o2, w2)"
    by (cases "generateMetadataTry env config request w1")
  obtain t' w3 where c: "dateNow env w2 = (t', w3)" by (cases "dateNow env w2")
  have "heapOf w3 = heapOf w"
    using heapOf_dateNow[OF a] heapOf_generateMetadataTry[OF b] heapOf_dateNow[OF c] by simp
  moreover have "w' = w3" using assms a b c
    by (cases o2) (auto simp: generateMetadata_def split: prod.splits)
  ultimately show ?thesis by simp
qed

lemma heapOf_insertMetadata:
  "insertMetadata env file m rep w = (r, w') \<Longrightarrow> heapOf w' = heapOf w"
  by (auto simp: insertMetadata_def heapOf_def split: sum.splits)

lemma frame_heapOf: "allocated w \<Longrightarrow> heapOf w' = heapOf w \<Longrightarrow> frame w w'"
  by (auto simp: frame_def heapOf_def allocated_def)

lemma frame_refl: "allocated w \<Longrightarrow> frame w w"
  by (simp add: frame_def allocated_def)

lemma frame_allocated: "frame w w' \<Longrightarrow> allocated w'"
  by (simp add: frame_def allocated_def)

lemma frame_trans: "allocated w \<Longrightarrow> frame w w' \<Longrightarrow> frame w' w'' \<Longrightarrow> frame w w''"
  unfolding frame_def allocated_def
  by (smt (verit) le_trans less_le_trans not_le order_less_imp_le linorder_not_less nat_neq_iff)

lemma frame_writeStats: "allocated w \<Longrightarrow> frame w (writeStats (usageStats w) f w)"
  by (simp add: frame_def writeStats_def allocated_def)

lemma frame_newDate: "allocated w \<Longrightarrow> newDate env w = (d, w') \<Longrightarrow> frame w w' \<and> usageStats w' = usageStats w"
  by (auto simp: frame_def newDate_def dateNow_def allocated_def Let_def)

lemma frame_resetUsageStats: "allocated w \<Longrightarrow> frame w (resetUsageStats env w)"
  by (auto simp: frame_def resetUsageStats_def newDate_def dateNow_def allocated_def Let_def)

lemma frame_getUsageStats: "allocated w \<Longrightarrow> getUsageStats w = (a, w') \<Longrightarrow> frame w w'"
  by (auto simp: frame_def getUsageStats_def allocated_def Let_def)

lemma frame_incrementFailed: "allocated w \<Longrightarrow> frame w (incrementFailedRequests w)"
  by (simp add: incrementFailedRequests_def frame_writeStats)

lemma frame_updateUsageStats: "allocated w \<Longrightarrow> frame w (updateUsageStats env response t w)"
  by (auto simp: frame_def updateUsageStats_def writeStats_def newDate_def dateNow_def
      allocated_def Let_def split: option.splits)


lemma frame_generateWithTemplate:
  assumes al: "allocated w" and g: "generateWithTemplate env config file t d p w = (r, w')"
  shows "frame w w'"
proof -
  obtain st w1 where a: "dateNow env w = (st, w1)" by (cases "dateNow env w")
  have f1: "frame w w1" using frame_heapOf[OF al heapOf_dateNow[OF a]] .
  have al1: "allocated w1" by (rule frame_allocated[OF f1])
  obtain r2 w2 where b: "generateWithTemplateTry env config file t d p st w1 = (r2, w2)"
    by (cases "generateWithTemplateTry env config file t d p st w1")
  have f2: "frame w1 w2"
  proof (cases "vault_read env (vault w1) file")
    case (Inl e)
    then show ?thesis using b al1 by (simp add: generateWithTemplateTry_def frame_refl)
  next
    case (Inr c)
    let ?rq = "\<lparr>documentContent = d, fileName = name file, template = t,
                 existingMetadata = extractExistingMetadataContent c\<rparr>"
    obtain resp w3 where gm: "generateMetadata env config ?rq w1 = (resp, w3)"
      by (cases "generateMetadata env config ?rq w1")
    have f3: "frame w1 w3" using frame_heapOf[OF al1 heapOf_generateMetadata[OF gm]] .
    have al3: "allocated w3" by (rule frame_allocated[OF f3])
    show ?thesis
    proof (cases "unusable resp")
      case True
      then show ?thesis using b Inr gm f3 by (simp add: generateWithTemplateTry_def)
    next
      case False
      obtain et w4 where dn: "dateNow env w3 = (et, w4)" by (cases "dateNow env w3")
      have f4: "frame w3 w4" using frame_heapOf[OF al3 heapOf_dateNow[OF dn]] .
      have al4: "allocated w4" by (rule frame_allocated[OF f4])
      let ?w5 = "updateUsageStats env resp (et - st) w4"
      have f5: "frame w4 ?w5" by (rule frame_updateUsageStats[OF al4])
      have al5: "allocated ?w5" by (rule frame_allocated[OF f5])
      have f15: "frame w1 ?w5"
        using frame_trans[OF al1 f3 frame_trans[OF al3 f4 f5]] .
      show ?thesis
      proof (cases p)
        case True
        then show ?thesis using b Inr gm False dn f15 by (simp add: generateWithTemplateTry_def)
      next
        case np: False
        obtain ri w6 where im: "insertMetadata env file (orElse (metadata resp) []) False ?w5 = (ri, w6)"
          by (cases "insertMetadata env file (orElse (metadata resp) []) False ?w5")
        have f6: "frame ?w5 w6" using frame_heapOf[OF al5 heapOf_insertMetadata[OF im]] .
        have "w2 = w6" using b Inr gm False dn np im by (simp add: generateWithTemplateTry_def)
        then show ?thesis using frame_trans[OF al1 f15 f6] by simp
      qed
    qed
  qed
  have al2: "allocated w2" by (rule frame_allocated[OF f2])
  have f12: "frame w w2" by (rule frame_trans[OF al f1 f2])
  show ?thesis
  proof (cases r2)
    case (Inl e)
    then have "w' = incrementFailedRequests w2" using g a b by (simp add: generateWithTemplate_def)
    then show ?thesis using frame_trans[OF al f12 frame_incrementFailed[OF al2]] by simp
  next
    case (Inr u)
    then have "w' = w2" using g a b by (simp add: generateWithTemplate_def)
    then show ?thesis using f12 by simp
  qed
qed

lemma heapOf_generateMetadataCall:
  "heapOf (snd (generateMetadataCall env config request w)) = heapOf w"
proof -
  obtain t w1 where a: "dateNow env w = (t, w1)" by (cases "dateNow env w")
  have h1: "heapOf w1 = heapOf w" by (rule heapOf_dateNow[OF a])
  show ?thesis
  proof (cases "apiKey config = []")
    case True
    obtain t2 w2 where b: "dateNow env w1 = (t2, w2)" by (cases "dateNow env w1")
    have "heapOf w2 = heapOf w" using heapOf_dateNow[OF b] h1 by simp
    then show ?thesis using True a b by (simp add: generateMetadataCall_def)
  next
    case False
    obtain ms w2 where b: "buildMessages env request w1 = (ms, w2)"
      by (cases "buildMessages env request w1")
    obtain r3 w3 where c: "makeApiRequest env config ms False w2 = (r3, w3)"
      by (cases "makeApiRequest env config ms False w2")
    have "heapOf w3 = heapOf w"
      using heapOf_buildMessages[OF b] heapOf_makeApiRequest[OF c] h1 by simp
    then show ?thesis using False a b c by (simp add: generateMetadataCall_def)
  qed
qed

lemma heapOf_generateMetadataResume:
  "heapOf (snd (generateMetadataResume env startTime settled w)) = heapOf w"
proof -
  have d: "heapOf (snd (dateNow env w0)) = heapOf w0" for w0 :: "'a world"
    by (simp add: dateNow_def heapOf_def)
  have v: "heapOf (snd (validateAndFormatMetadata env md w)) = heapOf w" for md
    using heapOf_validate[of env md w] by (metis prod.collapse)
  show ?thesis
    using v by (simp add: generateMetadataResume_def split_def Let_def d split: sum.splits)
qed

lemma frame_resumeStep:
  assumes al: "allocated w"
  shows "frame w (snd (resumeStep env config t rep file task w))"
proof (cases task)
  case AwaitRead
  have "heapOf (snd (resumeStep env config t rep file task w)) = heapOf w"
    using AwaitRead heapOf_generateMetadataCall[of env config _ w]
    by (simp add: resumeStep_def split_def Let_def split: sum.splits)
  then show ?thesis by (rule frame_heapOf[OF al])
next
  case (AwaitApi startTime settled)
  have "heapOf (snd (resumeStep env config t rep file task w)) = heapOf w"
    using AwaitApi by (simp add: resumeStep_def split_def Let_def heapOf_generateMetadataResume)
  then show ?thesis by (rule frame_heapOf[OF al])
next
  case (AwaitGenerate response)
  then show ?thesis using al by (simp add: resumeStep_def frame_refl)
next
  case (AwaitInsertRead response)
  then show ?thesis using al by (simp add: resumeStep_def frame_refl split: sum.splits)
next
  case (AwaitModify response newContent)
  have "heapOf (snd (resumeStep env config t rep file task w)) = heapOf w"
    using AwaitModify by (simp add: resumeStep_def heapOf_def split: sum.splits)
  then show ?thesis by (rule frame_heapOf[OF al])
next
  case (AwaitInsert response settled)
  then show ?thesis using al
    by (simp add: resumeStep_def frame_refl frame_updateUsageStats split: sum.splits)
next
  case Finished
  then show ?thesis using al by (simp add: resumeStep_def frame_refl)
qed

lemma frame_runPool:
  "allocated (snd st) \<Longrightarrow> frame (snd st) (snd (runPool env config t rep sched pool st))"
proof (induction env config t rep sched pool st rule: runPool.induct)
  case (1 env config t rep sched pool st)
  show ?case
  proof (cases "pending pool = []")
    case True
    then show ?thesis using 1(2) by (simp add: runPool.simps frame_refl)
  next
    case False
    let ?a = "advance env config t rep (pick sched (pending pool)) pool st"
    have f1: "frame (snd st) (snd (snd ?a))"
      unfolding advance_world by (rule frame_resumeStep[OF 1(2)])
    have al1: "allocated (snd (snd ?a))" by (rule frame_allocated[OF f1])
    have f2: "frame (snd (snd ?a)) (snd (runPool env config t rep (tl sched) (fst ?a) (snd ?a)))"
      by (rule 1(1)[OF False al1])
    have "runPool env config t rep sched pool st
            = runPool env config t rep (tl sched) (fst ?a) (snd ?a)"
      using False by (subst runPool.simps) simp
    then show ?thesis using frame_trans[OF 1(2) f1 f2] by simp
  qed
qed

lemma frame_batchWindow:
  assumes "allocated (snd st)"
  shows "frame (snd st) (snd (batchWindow env config t rep onp n i batch sched st))"
  using frame_runPool[of "(snd (startAll onp n i batch batch (fst st)), snd st)"] assms
  by (simp add: batchWindow_def split_def Let_def)

lemma frame_batchLoop:
  assumes "batchLoop env config t rep onp m sched files i st = Some st'"
  shows "allocated (snd st) \<longrightarrow> frame (snd st) (snd st')"
proof (rule batchLoop.raw_induct[where
      P = "\<lambda>env config t rep onp m sched files i st st'.
             allocated (snd st) \<longrightarrow> frame (snd st) (snd st')", OF _ assms], goal_cases)
  case (1 batchLoop' env config t rep onp m sched files i st st')
  show ?case
  proof (cases "i < int (length files)")
    case True
    let ?st1 = "batchWindow env config t rep onp (length files) i
                  (jsSlice files i (i + m)) (sched i) st"
    have rec: "batchLoop' env config t rep onp m sched files (i + m) ?st1 = Some st'"
      using 1(2) True by simp
    show ?thesis
    proof
      assume al: "allocated (snd st)"
      have f1: "frame (snd st) (snd ?st1)" by (rule frame_batchWindow[OF al])
      have "frame (snd ?st1) (snd st')" using 1(1)[OF rec] frame_allocated[OF f1] by simp
      then show "frame (snd st) (snd st')" using frame_trans[OF al f1] by simp
    qed
  next
    case False
    then have "st' = st" using 1(2) by simp
    then show ?thesis by (simp add: frame_refl)
  qed
qed

lemma frame_batchGenerate:
  assumes al: "allocated w"
    and g: "batchGenerate env config templates files i options sched w = Some (r, w')"
  shows "frame w w'"
proof (cases "getTemplate templates i")
  case None
  then show ?thesis using g al by (simp add: batchGenerate_def frame_refl)
next
  case (Some t)
  then obtain st' where l: "batchLoop env config t (orElse (opt_replaceExisting options) False)
        (opt_onProgress options) (orElse (opt_maxConcurrent options) 3) sched files 0
        (\<lparr>results_success = 0, results_failed = 0, results_errors = []\<rparr>, w) = Some st'"
    and w': "w' = snd st'"
    using g by (auto simp: batchGenerate_def)
  show ?thesis using frame_batchLoop[OF l] al w' by simp
qed

lemma later_frame: "later env w w' \<Longrightarrow> allocated w \<Longrightarrow> frame w w'"
proof (induction rule: later.induct)
  case (later_refl w)
  then show ?case by (simp add: frame_refl)
next
  case (later_generate w w1 config fl t d preview r w2)
  have f: "frame w w1" using later_generate by simp
  show ?case
    using frame_trans[OF later_generate.prems f
        frame_generateWithTemplate[OF frame_allocated[OF f] later_generate.hyps(2)]] .
next
  case (later_batch w w1 config templates files i options schedule rb w2)
  have f: "frame w w1" using later_batch by simp
  show ?case
    using frame_trans[OF later_batch.prems f
        frame_batchGenerate[OF frame_allocated[OF f] later_batch.hyps(2)]] .
next
  case (later_insert w w1 fl m rep ri w2)
  have f: "frame w w1" using later_insert by simp
  show ?case
    using frame_trans[OF later_insert.prems f
        frame_heapOf[OF frame_allocated[OF f] heapOf_insertMetadata[OF later_insert.hyps(2)]]] .
next
  case (later_reset w w1)
  have f: "frame w w1" using later_reset by simp
  show ?case
    using frame_trans[OF later_reset.prems f frame_resetUsageStats[OF frame_allocated[OF f]]] .
next
  case (later_snapshot w w1 b w2)
  have f: "frame w w1" using later_snapshot by simp
  show ?case
    using frame_trans[OF later_snapshot.prems f
        frame_getUsageStats[OF frame_allocated[OF f] later_snapshot.hyps(2)]] .
qed

text \<open>
  Claim C10. \<open>getUsageStats\<close> returns a fresh object holding the seven field values of the
  internal statistics record (a shallow copy). Writing any field of the object received
  does not change the internal record, and no later operation of the orchestrator
  (generation, batch generation, insertion, reset, another snapshot) changes the object
  received: its counters stay as they were when it was returned.
\<close>

theorem getUsageStats_snapshot_isolated:
  assumes al: "allocated w" and snap: "getUsageStats w = (a, w1)"
  shows "statsObjs w1 a = currentStats w
         \<and> currentStats w1 = currentStats w
         \<and> a \<noteq> usageStats w1
         \<and> (\<forall>f. currentStats (writeStats a f w1) = currentStats w1)
         \<and> (\<forall>w2. later env w1 w2 \<longrightarrow> statsObjs w2 a = statsObjs w1 a)"
proof -
  have a: "a = nextAddr w" and w1: "w1 = w\<lparr>statsObjs := (statsObjs w)(a := currentStats w), nextAddr := a + 1\<rparr>"
    using snap by (auto simp: getUsageStats_def Let_def)
  have ne: "a \<noteq> usageStats w" using al a by (simp add: allocated_def)
  have al1: "allocated w1" using al a w1 by (simp add: allocated_def)
  have p1: "statsObjs w1 a = currentStats w" using w1 by simp
  have p2: "currentStats w1 = currentStats w" using w1 ne by (simp add: currentStats_def)
  have p3: "a \<noteq> usageStats w1" using w1 ne by simp
  have p4: "\<forall>f. currentStats (writeStats a f w1) = currentStats w1"
    using p3 by (simp add: currentStats_def writeStats_def)
  have p5: "\<forall>w2. later env w1 w2 \<longrightarrow> statsObjs w2 a = statsObjs w1 a"
  proof (intro allI impI)
    fix w2 assume "later env w1 w2"
    then have "frame w1 w2" using later_frame al1 by blast
    moreover have "a < nextAddr w1" using w1 by simp
    ultimately show "statsObjs w2 a = statsObjs w1 a" using p3 by (simp add: frame_def)
  qed
  show ?thesis using p1 p2 p3 p4 p5 by blast
qed

theorem getUsageStats_snapshot_isolated_witness:
  "allocated (sampleWorld Map.empty)
   \<and> fst (getUsageStats (sampleWorld Map.empty)) = 3
   \<and> currentStats (writeStats 3 (\<lambda>s. s\<lparr>totalRequests := 99\<rparr>)
                      (snd (getUsageStats (sampleWorld Map.empty)))) = zeroStats
   \<and> statsObjs (resetUsageStats sampleEnv (snd (getUsageStats (sampleWorld Map.empty)))) 3
       = zeroStats"
proof -
  let ?w = "sampleWorld Map.empty"
  let ?w1 = "snd (getUsageStats ?w)"
  have al: "allocated ?w" by (simp add: allocated_def sampleWorld_def)
  have f3: "fst (getUsageStats ?w) = 3"
    by (simp add: getUsageStats_def sampleWorld_def Let_def)
  have snap: "getUsageStats ?w = (3, ?w1)" using f3 by (metis prod.collapse)
  have cur: "currentStats ?w = zeroStats" by (simp add: currentStats_def sampleWorld_def)
  have lat: "later sampleEnv ?w1 (resetUsageStats sampleEnv ?w1)"
    by (rule later_reset[OF later_refl])
  note iso = getUsageStats_snapshot_isolated[OF al snap, of sampleEnv]
  have c1: "currentStats (writeStats 3 (\<lambda>s. s\<lparr>totalRequests := 99\<rparr>) ?w1) = zeroStats"
    using iso cur by simp
  have c2: "statsObjs (resetUsageStats sampleEnv ?w1) 3 = zeroStats"
    using iso cur lat by metis
  show ?thesis using al f3 c1 c2 by blast
qed

lemmas generator_eval =
  generateWithTemplate_def generateWithTemplateTry_def generateMetadata_def
  generateMetadataTry_def dateNow_def incrementFailedRequests_def writeStats_def
  currentStats_def sampleEnv_def sampleConfig_def sampleFile_def sampleWorld_def
  sampleTemplate_def zeroStats_def unusable_def generationError_def
  extractExistingMetadataContent_def startsWith_def js_def Let_def
  batchGenerate_def getTemplate_def mapGet_def orElse_def batchWindow_def startTask_def
  resumeStep_def settle_def generateMetadataCall_def
  jsSlice_def extractDocumentContent_def trim_def isSpace_def

text \<open>A window of one callback: the callback goes on until it has ended.\<close>

lemma runPool_single:
  "runPool env config tp rep sched [(file, t)] st =
     (if t = Finished then st
      else runPool env config tp rep (tl sched)
             [(file, fst (settle file (fst (resumeStep env config tp rep file t (snd st))) (fst st)))]
             (snd (settle file (fst (resumeStep env config tp rep file t (snd st))) (fst st)),
              snd (resumeStep env config tp rep file t (snd st))))"
proof (cases "t = Finished")
  case True
  then have "pending [(file, t)] = []" by (simp add: pending_def)
  then show ?thesis using True by (subst runPool.simps) simp
next
  case False
  then have p: "pending [(file, t)] = [0]" by (simp add: pending_def)
  have k: "pick sched [0] = 0" by (cases sched) (simp_all add: pick_def)
  show ?thesis
    using False by (subst runPool.simps) (simp add: p k advance_def split_def Let_def)
qed

text \<open>
  What \<open>updateUsageStats\<close> does when it is called: the update the specification
  describes, on the internal record.
\<close>

lemma updateUsageStats_counters:
  "totalRequests (currentStats (updateUsageStats env response elapsed w))
     = totalRequests (currentStats w) + 1
   \<and> successfulRequests (currentStats (updateUsageStats env response elapsed w))
     = successfulRequests (currentStats w) + (if success response then 1 else 0)
   \<and> failedRequests (currentStats (updateUsageStats env response elapsed w))
     = failedRequests (currentStats w) + (if success response then 0 else 1)
   \<and> totalTokensUsed (currentStats (updateUsageStats env response elapsed w))
     = totalTokensUsed (currentStats w) + orElse (tokensUsed response) 0
   \<and> averageProcessingTime (currentStats (updateUsageStats env response elapsed w))
     = (averageProcessingTime (currentStats w) * real (totalRequests (currentStats w))
          + real_of_int elapsed) / real (totalRequests (currentStats w) + 1)"
  by (simp add: updateUsageStats_def writeStats_def currentStats_def newDate_def dateNow_def
      orElse_def Let_def split: option.splits)

text \<open>
  Claim C1 says that the statistics are updated after every completed request, failed
  ones included, in \<open>generateWithTemplate\<close> and in \<open>batchGenerate\<close>. Both functions throw
  on a failed response before they reach \<open>updateUsageStats\<close>. With an empty API key
  (the default configuration) a request fails: after \<open>generateWithTemplate\<close> only
  \<open>failedRequests\<close> has moved, \<open>totalRequests\<close> is still 0; after \<open>batchGenerate\<close> over the
  same file the batch result counts one failure and the statistics are untouched.
\<close>

theorem failed_request_misses_updateUsageStats:
  "fst (generateWithTemplate sampleEnv (sampleConfig []) (sampleFile ''a.md'')
          (sampleTemplate ''general-note'' True) (js ''text'') False
          (sampleWorld (Map.empty(sampleFile ''a.md'' \<mapsto> js ''text''))))
     = Inl (Error (js ''API_KEY_MISSING''))
   \<and> currentStats (snd (generateWithTemplate sampleEnv (sampleConfig []) (sampleFile ''a.md'')
          (sampleTemplate ''general-note'' True) (js ''text'') False
          (sampleWorld (Map.empty(sampleFile ''a.md'' \<mapsto> js ''text'')))))
     = zeroStats\<lparr>failedRequests := 1\<rparr>
   \<and> map_option (\<lambda>p. (fst p, currentStats (snd p)))
         (batchGenerate sampleEnv (sampleConfig [])
            [(js ''general-note'', sampleTemplate ''general-note'' True)]
            [sampleFile ''a.md''] (js ''general-note'')
            \<lparr>opt_replaceExisting = None, opt_maxConcurrent = None, opt_onProgress = None\<rparr>
            schedule
            (sampleWorld (Map.empty(sampleFile ''a.md'' \<mapsto> js ''text''))))
     = Some (Inr \<lparr>results_success = 0, results_failed = 1,
                   results_errors = [js ''a.md: API_KEY_MISSING'']\<rparr>, zeroStats)"
  by (simp add: generator_eval batchLoop.simps runPool_single)

subsection \<open>Batch generation: failures stay with their document\<close>


subsection \<open>Regular expressions over one character class\<close>

lemma rxm_Chr_Nil [simp]: "rxm (Chr P) (b, [], c) = []"
  by simp

lemma rxm_Chr_Cons [simp]:
  "rxm (Chr P) (b, x # xs, c) = (if P x then [(x # b, xs, c)] else [])"
  by simp

lemma replaceLoop_Chr:
  "replaceLoop (Chr P) (\<lambda>_ _. rep) b a = concat (map (\<lambda>x. if P x then rep else [x]) a)"
proof (induction a arbitrary: b)
  case Nil
  show ?case by (subst replaceLoop.simps) simp
next
  case (Cons x xs)
  show ?case by (subst replaceLoop.simps) (simp add: remaining_def Cons.IH)
qed

lemma replaceAll_Chr_delete:
  "replaceAll (Chr P) (\<lambda>_ _. []) s = filter (\<lambda>x. \<not> P x) s"
  by (induction s) (simp_all add: replaceAll_def replaceLoop_Chr)

lemma replaceAll_Chr_map:
  "replaceAll (Chr P) (\<lambda>_ _. [h]) s = map (\<lambda>x. if P x then h else x) s"
  by (induction s) (simp_all add: replaceAll_def replaceLoop_Chr)

lemma countLoop_Chr: "countLoop (Chr P) b a = length (filter P a)"
proof (induction a arbitrary: b)
  case Nil
  show ?case by (subst countLoop.simps) simp
next
  case (Cons x xs)
  show ?case by (subst countLoop.simps) (simp add: remaining_def Cons.IH)
qed

lemma countMatches_Chr: "countMatches (Chr P) s = length (filter P s)"
  by (simp add: countMatches_def countLoop_Chr)

lemma testLoop_Chr: "testLoop (Chr P) b a = (\<exists>x\<in>set a. P x)"
  by (induction a arbitrary: b) auto

lemma test_Chr: "test (Chr P) s = (\<exists>x\<in>set s. P x)"
  by (simp add: test_def testLoop_Chr)

text \<open>A greedy run of one class takes the longest run there is.\<close>

lemma rxm_Star_Chr:
  "\<exists>rest. rxm (Star (Chr P)) (b, a, c) = (rev (takeWhile P a) @ b, dropWhile P a, c) # rest"
proof (induction a arbitrary: b)
  case Nil
  show ?case by simp
next
  case (Cons x xs)
  show ?case
  proof (cases "P x")
    case True
    obtain rest where r: "rxm (Star (Chr P)) (x # b, xs, c)
        = (rev (takeWhile P xs) @ x # b, dropWhile P xs, c) # rest"
      using Cons.IH[of "x # b"] by blast
    have "rxm (Star (Chr P)) (b, x # xs, c)
            = rxm (Star (Chr P)) (x # b, xs, c) @ [(b, x # xs, c)]"
      using True by (simp add: remaining_def)
    then show ?thesis using r True by simp
  next
    case False
    then show ?thesis by simp
  qed
qed

lemma replaceLoop_Plus_Chr:
  "replaceLoop (Plus (Chr P)) (\<lambda>_ _. rep) b a = collapseRuns P rep a"
proof (induction P rep a arbitrary: b rule: collapseRuns.induct)
  case (1 P rep)
  show ?case by (subst replaceLoop.simps) (simp add: Plus_def)
next
  case (2 P rep x xs)
  show ?case
  proof (cases "P x")
    case True
    obtain rest where r: "rxm (Star (Chr P)) (x # b, xs, [])
        = (rev (takeWhile P xs) @ x # b, dropWhile P xs, []) # rest"
      using rxm_Star_Chr[of P "x # b" xs "[]"] by blast
    have m: "rxm (Plus (Chr P)) (b, x # xs, [])
        = (rev (takeWhile P xs) @ x # b, dropWhile P xs, []) # rest"
      using True r by (simp add: Plus_def)
    have le: "length (dropWhile P xs) < length (x # xs)"
      using length_dropWhile_le[of P xs] by simp
    show ?thesis
      using True 2(1)[OF True] m le
      by (subst replaceLoop.simps) (simp add: remaining_def)
  next
    case False
    have m: "rxm (Plus (Chr P)) (b, x # xs, []) = []"
      using False by (simp add: Plus_def)
    show ?thesis using False 2(2)[OF False] m by (subst replaceLoop.simps) simp
  qed
qed


lemma filter_not_dropWhile: "filter (\<lambda>x. \<not> P x) (dropWhile P xs) = filter (\<lambda>x. \<not> P x) xs"
  by (induction xs) simp_all

lemma collapseRuns_delete: "collapseRuns P [] s = filter (\<lambda>x. \<not> P x) s"
  by (induction P "[] :: jsstring" s rule: collapseRuns.induct)
     (simp_all add: filter_not_dropWhile)

subsection \<open>Hyphens\<close>

lemma rxm_edge_inner:
  "b \<noteq> [] \<Longrightarrow>
   rxm rxEdgeHyphen (b, a, []) = (if a = [HYPHEN] then [(HYPHEN # b, [], [])] else [])"
  by (cases a) (auto simp: rxEdgeHyphen_def)

lemma replaceLoop_edge_inner:
  "b \<noteq> [] \<Longrightarrow> replaceLoop rxEdgeHyphen (\<lambda>_ _. []) b a = dropTrailingHyphen a"
proof (induction a arbitrary: b)
  case Nil
  then show ?case
    by (subst replaceLoop.simps) (simp add: rxm_edge_inner dropTrailingHyphen_def)
next
  case (Cons x xs)
  show ?case
  proof (cases "x # xs = [HYPHEN]")
    case True
    then have "replaceLoop rxEdgeHyphen (\<lambda>_ _. []) (HYPHEN # b) [] = []"
      by (subst replaceLoop.simps) (simp add: rxm_edge_inner)
    then show ?thesis using True Cons.prems
      by (subst replaceLoop.simps) (simp add: rxm_edge_inner remaining_def dropTrailingHyphen_def)
  next
    case False
    have "replaceLoop rxEdgeHyphen (\<lambda>_ _. []) b (x # xs)
            = x # replaceLoop rxEdgeHyphen (\<lambda>_ _. []) (x # b) xs"
      using False Cons.prems by (subst replaceLoop.simps) (simp add: rxm_edge_inner)
    also have "\<dots> = x # dropTrailingHyphen xs" using Cons.IH[of "x # b"] by simp
    also have "\<dots> = dropTrailingHyphen (x # xs)"
      using False by (auto simp: dropTrailingHyphen_def)
    finally show ?thesis .
  qed
qed

lemma replaceAll_edge: "replaceAll rxEdgeHyphen (\<lambda>_ _. []) a = stripEdge a"
proof (cases a)
  case Nil
  then show ?thesis
    by (simp add: replaceAll_def stripEdge_def, subst replaceLoop.simps)
       (simp add: rxEdgeHyphen_def)
next
  case (Cons x xs)
  show ?thesis
  proof (cases "x = HYPHEN")
    case True
    have m: "\<exists>rest. rxm rxEdgeHyphen ([], x # xs, []) = ([x], xs, []) # rest"
      using True by (simp add: rxEdgeHyphen_def)
    then obtain rest where r: "rxm rxEdgeHyphen ([], x # xs, []) = ([x], xs, []) # rest" by blast
    have "replaceLoop rxEdgeHyphen (\<lambda>_ _. []) [] (x # xs)
            = replaceLoop rxEdgeHyphen (\<lambda>_ _. []) [x] xs"
      by (subst replaceLoop.simps) (simp add: r remaining_def)
    then show ?thesis using True Cons
      by (simp add: replaceAll_def stripEdge_def replaceLoop_edge_inner)
  next
    case False
    have m: "rxm rxEdgeHyphen ([], x # xs, []) = []"
      using False by (simp add: rxEdgeHyphen_def)
    have "replaceLoop rxEdgeHyphen (\<lambda>_ _. []) [] (x # xs)
            = x # replaceLoop rxEdgeHyphen (\<lambda>_ _. []) [x] xs"
      by (subst replaceLoop.simps) (simp add: m)
    also have "\<dots> = x # dropTrailingHyphen xs" by (simp add: replaceLoop_edge_inner)
    also have "\<dots> = dropTrailingHyphen (x # xs)"
      using False by (auto simp: dropTrailingHyphen_def)
    finally show ?thesis using False Cons by (simp add: replaceAll_def stripEdge_def)
  qed
qed

lemma squeeze_Nil_iff: "squeeze xs = [] \<longleftrightarrow> xs = []"
  by (induction xs rule: squeeze.induct) auto

lemma squeeze_hd: "squeeze (y # xs) = z # zs \<Longrightarrow> z = y"
  by (induction "y # xs" arbitrary: y xs rule: squeeze.induct) (auto split: if_splits)

lemma squeeze_Cons: "squeeze (x # ys) = squeezeCons x (squeeze ys)"
proof (cases ys)
  case Nil
  then show ?thesis by (simp add: squeezeCons_def)
next
  case (Cons y ys')
  obtain z zs where z: "squeeze (y # ys') = z # zs"
    by (cases "squeeze (y # ys')") (simp_all add: squeeze_Nil_iff)
  have "z = y" using squeeze_hd[OF z] .
  then show ?thesis using Cons z by (auto simp: squeezeCons_def)
qed


lemma squeeze_hyphen_run: "squeeze (HYPHEN # replicate n HYPHEN @ zs) = squeeze (HYPHEN # zs)"
  by (induction n) simp_all

lemma replaceAll_hyphens: "replaceAll rxHyphens (\<lambda>_ _. [HYPHEN]) s = squeeze s"
proof -
  have "collapseRuns (\<lambda>c. c = HYPHEN) [HYPHEN] s = squeeze s"
  proof (induction "\<lambda>c::nat. c = HYPHEN" "[HYPHEN]" s rule: collapseRuns.induct)
    case 1
    show ?case by simp
  next
    case (2 x xs)
    show ?case
    proof (cases "x = HYPHEN")
      case True
      have "\<forall>y\<in>set (takeWhile (\<lambda>c. c = HYPHEN) xs). y = HYPHEN"
        using set_takeWhileD by fastforce
      then have "replicate (length (takeWhile (\<lambda>c. c = HYPHEN) xs)) HYPHEN
                  = takeWhile (\<lambda>c. c = HYPHEN) xs"
        by (rule replicate_length_same)
      then have tw: "xs = replicate (length (takeWhile (\<lambda>c. c = HYPHEN) xs)) HYPHEN
                  @ dropWhile (\<lambda>c. c = HYPHEN) xs"
        by simp
      have "squeeze (HYPHEN # xs) = squeeze (HYPHEN # dropWhile (\<lambda>c. c = HYPHEN) xs)"
        using squeeze_hyphen_run[of "length (takeWhile (\<lambda>c. c = HYPHEN) xs)"
            "dropWhile (\<lambda>c. c = HYPHEN) xs"] tw by simp
      also have "\<dots> = HYPHEN # squeeze (dropWhile (\<lambda>c. c = HYPHEN) xs)"
      proof (cases "dropWhile (\<lambda>c. c = HYPHEN) xs")
        case Nil
        show ?thesis unfolding Nil by simp
      next
        case (Cons d ds)
        then have "d \<noteq> HYPHEN"
          using hd_dropWhile[of "\<lambda>c. c = HYPHEN" xs] by auto
        then show ?thesis unfolding Cons by simp
      qed
      finally show ?thesis using True 2(1) by simp
    next
      case False
      then have "squeeze (x # xs) = x # squeeze xs" by (cases xs) simp_all
      then show ?thesis using False 2(2) by simp
    qed
  qed
  then show ?thesis by (simp add: replaceAll_def rxHyphens_def replaceLoop_Plus_Chr)
qed


lemma isSpace_not_word: "isSpace c \<Longrightarrow> \<not> isWordChar c"
  by (auto simp: isSpace_def isWordChar_def)

lemma toHyphen_space: "isSpace c \<or> c = 95 \<Longrightarrow> toHyphen c = HYPHEN"
  using isSpace_not_word by (auto simp: toHyphen_def)

lemma toHyphen_other:
  "\<not> (isSpace c \<or> c = 95) \<Longrightarrow>
   (if \<not> (isWordChar c \<or> c = HYPHEN) then HYPHEN else c) = toHyphen c"
  by (auto simp: toHyphen_def)

lemma squeeze_map_collapse:
  "squeeze (map (\<lambda>x. if \<not> (isWordChar x \<or> x = HYPHEN) then HYPHEN else x)
             (collapseRuns (\<lambda>c. isSpace c \<or> c = 95) [HYPHEN] s))
     = squeeze (map toHyphen s)"
proof (induction "\<lambda>c. isSpace c \<or> c = 95" "[HYPHEN]" s rule: collapseRuns.induct)
  case 1
  show ?case by simp
next
  case (2 x xs)
  let ?W = "\<lambda>c. isSpace c \<or> c = 95"
  let ?m2 = "\<lambda>x. if \<not> (isWordChar x \<or> x = HYPHEN) then HYPHEN else x"
  show ?case
  proof (cases "?W x")
    case True
    have "\<forall>y\<in>set (map toHyphen (takeWhile ?W xs)). y = HYPHEN"
      using toHyphen_space set_takeWhileD by fastforce
    then have "replicate (length (map toHyphen (takeWhile ?W xs))) HYPHEN
                 = map toHyphen (takeWhile ?W xs)"
      by (rule replicate_length_same)
    then have run: "map toHyphen xs
        = replicate (length (takeWhile ?W xs)) HYPHEN @ map toHyphen (dropWhile ?W xs)"
      by (metis length_map map_append takeWhile_dropWhile_id)
    have "squeeze (map ?m2 (collapseRuns ?W [HYPHEN] (x # xs)))
            = squeeze (HYPHEN # map ?m2 (collapseRuns ?W [HYPHEN] (dropWhile ?W xs)))"
      using True by (simp add: HYPHEN_def)
    also have "\<dots> = squeezeCons HYPHEN
                        (squeeze (map ?m2 (collapseRuns ?W [HYPHEN] (dropWhile ?W xs))))"
      by (rule squeeze_Cons)
    also have "\<dots> = squeezeCons HYPHEN (squeeze (map toHyphen (dropWhile ?W xs)))"
      using 2(1)[OF True] by simp
    also have "\<dots> = squeeze (HYPHEN # map toHyphen (dropWhile ?W xs))"
      by (rule squeeze_Cons[symmetric])
    also have "\<dots> = squeeze (HYPHEN # map toHyphen xs)"
      using squeeze_hyphen_run[of "length (takeWhile ?W xs)" "map toHyphen (dropWhile ?W xs)"]
        run by simp
    also have "\<dots> = squeeze (map toHyphen (x # xs))"
      using toHyphen_space[OF True] by simp
    finally show ?thesis .
  next
    case False
    have "squeeze (map ?m2 (collapseRuns ?W [HYPHEN] (x # xs)))
            = squeeze (?m2 x # map ?m2 (collapseRuns ?W [HYPHEN] xs))"
      using False by simp
    also have "\<dots> = squeezeCons (?m2 x) (squeeze (map ?m2 (collapseRuns ?W [HYPHEN] xs)))"
      by (rule squeeze_Cons)
    also have "\<dots> = squeezeCons (toHyphen x) (squeeze (map toHyphen xs))"
      using 2(2)[OF False] toHyphen_other[OF False] by simp
    also have "\<dots> = squeeze (map toHyphen (x # xs))"
      using squeeze_Cons[of "toHyphen x" "map toHyphen xs"] by simp
    finally show ?thesis .
  qed
qed

text \<open>After \<open>squeeze\<close> no two hyphens are adjacent, so one hyphen at most sits on each edge.\<close>

lemma noAdjacent_squeeze: "noAdjacent (squeeze s)"
proof (induction s rule: squeeze.induct)
  case (1 x y xs)
  show ?case
  proof (cases "x = HYPHEN \<and> y = HYPHEN")
    case True
    then show ?thesis using 1 by simp
  next
    case False
    obtain z zs where z: "squeeze (y # xs) = z # zs"
      by (cases "squeeze (y # xs)") (simp_all add: squeeze_Nil_iff)
    have "z = y" using squeeze_hd[OF z] .
    then show ?thesis using False 1 z by auto
  qed
qed simp_all

lemma noAdjacent_tl: "noAdjacent (x # xs) \<Longrightarrow> noAdjacent xs"
  by (cases xs) simp_all

lemma noAdjacent_last:
  "noAdjacent (xs @ [HYPHEN]) \<Longrightarrow> xs = [] \<or> last xs \<noteq> HYPHEN"
  by (induction xs rule: noAdjacent.induct) simp_all

lemma dropTrailing_trim:
  assumes "noAdjacent a"
  shows "rev (dropWhile (\<lambda>c. c = HYPHEN) (rev a)) = dropTrailingHyphen a"
proof (cases "a \<noteq> [] \<and> last a = HYPHEN")
  case True
  then obtain a' where a: "a = a' @ [HYPHEN]" by (metis append_butlast_last_id)
  have "a' = [] \<or> last a' \<noteq> HYPHEN" using assms a noAdjacent_last by simp
  then have "dropWhile (\<lambda>c. c = HYPHEN) (rev a') = rev a'"
    by (cases a' rule: rev_cases) auto
  then show ?thesis using a by (simp add: dropTrailingHyphen_def)
next
  case False
  then have "dropWhile (\<lambda>c. c = HYPHEN) (rev a) = rev a"
    by (cases a rule: rev_cases) auto
  then show ?thesis using False by (auto simp: dropTrailingHyphen_def)
qed

lemma stripEdge_trim: "noAdjacent a \<Longrightarrow> stripEdge a = trimHyphens a"
proof (cases a)
  case Nil
  then show ?thesis by (simp add: stripEdge_def trimHyphens_def)
next
  case (Cons x xs)
  assume na: "noAdjacent a"
  show ?thesis
  proof (cases "x = HYPHEN")
    case True
    have "xs = [] \<or> hd xs \<noteq> HYPHEN" using na Cons True by (cases xs) auto
    then have "dropWhile (\<lambda>c. c = HYPHEN) a = xs" using Cons True by (cases xs) auto
    then show ?thesis
      using Cons True dropTrailing_trim[OF noAdjacent_tl[of x xs]] na
      by (simp add: stripEdge_def trimHyphens_def)
  next
    case False
    then have "dropWhile (\<lambda>c. c = HYPHEN) a = a" using Cons by simp
    then show ?thesis using Cons False dropTrailing_trim[OF na]
      by (simp add: stripEdge_def trimHyphens_def)
  qed
qed

lemma replaceAll_spaces:
  "replaceAll rxSpacesUnderscores (\<lambda>_ _. rep) s = collapseRuns (\<lambda>c. isSpace c \<or> c = 95) rep s"
  by (simp add: replaceAll_def rxSpacesUnderscores_def replaceLoop_Plus_Chr)

lemma replaceAll_notWordHyphen:
  "replaceAll rxNotWordHyphen (\<lambda>_ _. [HYPHEN]) s
     = map (\<lambda>x. if \<not> (isWordChar x \<or> x = HYPHEN) then HYPHEN else x) s"
  unfolding rxNotWordHyphen_def by (rule replaceAll_Chr_map)

lemma replaceAll_notWordCjk:
  "replaceAll rxNotWordCjk (\<lambda>_ _. []) s
     = filter (\<lambda>c. isWordChar c \<or> isHan c \<or> isKana c \<or> isHangul c) s"
  unfolding rxNotWordCjk_def by (simp add: replaceAll_Chr_delete)

lemma formatSingleTag_latin:
  assumes "\<not> (\<exists>c\<in>set (trim t). isHan c)"
  shows "formatSingleTag lc t = spec_latinTag lc (trim t)"
proof (cases "trim t = []")
  case True
  then show ?thesis
    by (auto simp: formatSingleTag_def spec_latinTag_def toLowerCase_def trimHyphens_def)
next
  case False
  then have tne: "t \<noteq> []" by (auto simp: trim_def)
  have nh: "\<not> test (Chr isHan) (trim t)" using assms by (simp add: test_Chr)
  have "formatSingleTag lc t
          = replaceAll rxEdgeHyphen (\<lambda>_ _. [])
              (replaceAll rxHyphens (\<lambda>_ _. [HYPHEN])
                (replaceAll rxNotWordHyphen (\<lambda>_ _. [HYPHEN])
                  (replaceAll rxSpacesUnderscores (\<lambda>_ _. [HYPHEN])
                    (toLowerCase lc (trim t)))))"
    using False tne nh by (simp add: formatSingleTag_def Let_def)
  also have "\<dots> = stripEdge (squeeze (map (\<lambda>x. if \<not> (isWordChar x \<or> x = HYPHEN) then HYPHEN else x)
              (collapseRuns (\<lambda>c. isSpace c \<or> c = 95) [HYPHEN] (toLowerCase lc (trim t)))))"
    by (simp only: replaceAll_edge replaceAll_hyphens replaceAll_notWordHyphen replaceAll_spaces)
  also have "\<dots> = stripEdge (squeeze (map toHyphen (toLowerCase lc (trim t))))"
    by (simp only: squeeze_map_collapse)
  also have "\<dots> = trimHyphens (squeeze (map toHyphen (toLowerCase lc (trim t))))"
    by (rule stripEdge_trim[OF noAdjacent_squeeze])
  finally show ?thesis by (simp add: spec_latinTag_def)
qed

lemma formatSingleTag_cjk:
  assumes "\<exists>c\<in>set (trim t). isHan c"
  shows "formatSingleTag lc t = spec_cjkTag (trim t)"
proof -
  have ne: "trim t \<noteq> []" using assms by auto
  then have tne: "t \<noteq> []" by (auto simp: trim_def)
  have h: "test (Chr isHan) (trim t)" using assms by (simp add: test_Chr)
  have "formatSingleTag lc t
          = replaceAll rxNotWordCjk (\<lambda>_ _. [])
              (replaceAll rxSpacesUnderscores (\<lambda>_ _. []) (trim t))"
    using ne tne h by (simp add: formatSingleTag_def Let_def)
  also have "\<dots> = filter (\<lambda>c. isWordChar c \<or> isHan c \<or> isKana c \<or> isHangul c)
                     (filter (\<lambda>x. \<not> (isSpace x \<or> x = 95)) (trim t))"
    by (simp only: replaceAll_notWordCjk replaceAll_spaces collapseRuns_delete)
  also have "\<dots> = spec_cjkTag (trim t)"
    by (auto simp: spec_cjkTag_def intro: filter_cong)
  finally show ?thesis .
qed

subsection \<open>Tag normalisation\<close>

lemmas tag_eval =
  js_def trim_def isSpace_def spec_latinTag_def spec_cjkTag_def toLowerCase_def toHyphen_def
  isWordChar_def HYPHEN_def trimHyphens_def isHan_def isKana_def isHangul_def

text \<open>
  What \<open>formatSingleTag\<close> computes on its two paths. The path is chosen by one test:
  whether the trimmed tag holds a code unit of the block U+4E00 to U+9FFF. With one, the
  tag only loses white space, underscores and the symbols outside letters, digits,
  ideographs, kana and hangul, with no change of case; without one it is lower-cased, its
  white space, underscores and other non-word characters become hyphens, repeated hyphens
  collapse, and the hyphens at both ends are trimmed.
\<close>

lemma formatSingleTag_paths:
  "(\<forall>t. (\<exists>c\<in>set (trim t). isHan c) \<longrightarrow> formatSingleTag lc t = spec_cjkTag (trim t))
   \<and> (\<forall>t. \<not> (\<exists>c\<in>set (trim t). isHan c) \<longrightarrow>
            formatSingleTag lc t = spec_latinTag lc (trim t))"
  using formatSingleTag_cjk formatSingleTag_latin by blast

text \<open>
  Claim C9 says that a tag containing any CJK character keeps its characters and only
  loses white space, underscores and disallowed symbols, and the pattern of the first path
  does keep kana (U+3040 to U+30FF) and hangul (U+AC00 to U+D7AF) next to the ideographs.
  The two examples of the claim hold. But the test that chooses the path looks for an
  ideograph only, so a tag written in kana or in hangul takes the second path, where each
  of its characters is a non-word character: the kana tag U+30BF U+30B0 and the hangul tag
  U+D0DC U+ADF8 come out empty, and the kana tag followed by \<open>Tag\<close> comes out as \<open>tag\<close>,
  where the claim gives the tag itself and the kana followed by \<open>Tag\<close>.
\<close>

theorem formatSingleTag_kana_hangul:
  "formatSingleTag (\<lambda>c. [c]) (js ''Machine Learning'') = js ''machine-learning''
   \<and> formatSingleTag (\<lambda>c. [c]) [0x673A, 0x5668, 0x20, 0x5B66, 0x4E60]
       = [0x673A, 0x5668, 0x5B66, 0x4E60]
   \<and> isKana 0x30BF \<and> isKana 0x30B0 \<and> isHangul 0xD0DC \<and> isHangul 0xADF8
   \<and> spec_cjkTag [0x30BF, 0x30B0] = [0x30BF, 0x30B0]
   \<and> formatSingleTag (\<lambda>c. [c]) [0x30BF, 0x30B0] = []
   \<and> spec_cjkTag [0xD0DC, 0xADF8] = [0xD0DC, 0xADF8]
   \<and> formatSingleTag (\<lambda>c. [c]) [0xD0DC, 0xADF8] = []
   \<and> spec_cjkTag ([0x30BF, 0x30B0] @ js '' Tag'') = [0x30BF, 0x30B0] @ js ''Tag''
   \<and> formatSingleTag (\<lambda>c. [c]) ([0x30BF, 0x30B0] @ js '' Tag'') = js ''tag''"
proof -
  have t1: "trim (js ''Machine Learning'') = js ''Machine Learning''" by (simp add: tag_eval)
  have n1: "\<not> (\<exists>c\<in>set (trim (js ''Machine Learning'')). isHan c)"
    unfolding t1 by (simp add: js_def isHan_def)
  have e1: "formatSingleTag (\<lambda>c. [c]) (js ''Machine Learning'') = js ''machine-learning''"
    unfolding formatSingleTag_latin[OF n1] t1 by (simp add: tag_eval)
  have t2: "trim [0x673A, 0x5668, 0x20, 0x5B66, 0x4E60] = [0x673A, 0x5668, 0x20, 0x5B66, 0x4E60]"
    by (simp add: tag_eval)
  have h2: "\<exists>c\<in>set (trim [0x673A, 0x5668, 0x20, 0x5B66, 0x4E60]). isHan c"
    unfolding t2 by (simp add: isHan_def)
  have e2: "formatSingleTag (\<lambda>c. [c]) [0x673A, 0x5668, 0x20, 0x5B66, 0x4E60]
              = [0x673A, 0x5668, 0x5B66, 0x4E60]"
    unfolding formatSingleTag_cjk[OF h2] t2 by (simp add: tag_eval)
  have k: "isKana 0x30BF \<and> isKana 0x30B0 \<and> isHangul 0xD0DC \<and> isHangul 0xADF8"
    by (simp add: isKana_def isHangul_def)
  have t3: "trim [0x30BF, 0x30B0] = [0x30BF, 0x30B0]" by (simp add: tag_eval)
  have n3: "\<not> (\<exists>c\<in>set (trim [0x30BF, 0x30B0]). isHan c)" unfolding t3 by (simp add: isHan_def)
  have s3: "spec_cjkTag [0x30BF, 0x30B0] = [0x30BF, 0x30B0]" by (simp add: tag_eval)
  have e3: "formatSingleTag (\<lambda>c. [c]) [0x30BF, 0x30B0] = []"
    unfolding formatSingleTag_latin[OF n3] t3 by (simp add: tag_eval)
  have t4: "trim [0xD0DC, 0xADF8] = [0xD0DC, 0xADF8]" by (simp add: tag_eval)
  have n4: "\<not> (\<exists>c\<in>set (trim [0xD0DC, 0xADF8]). isHan c)" unfolding t4 by (simp add: isHan_def)
  have s4: "spec_cjkTag [0xD0DC, 0xADF8] = [0xD0DC, 0xADF8]" by (simp add: tag_eval)
  have e4: "formatSingleTag (\<lambda>c. [c]) [0xD0DC, 0xADF8] = []"
    unfolding formatSingleTag_latin[OF n4] t4 by (simp add: tag_eval)
  have t5: "trim ([0x30BF, 0x30B0] @ js '' Tag'') = [0x30BF, 0x30B0] @ js '' Tag''"
    by (simp add: tag_eval)
  have n5: "\<not> (\<exists>c\<in>set (trim ([0x30BF, 0x30B0] @ js '' Tag'')). isHan c)"
    unfolding t5 by (simp add: isHan_def js_def)
  have s5: "spec_cjkTag ([0x30BF, 0x30B0] @ js '' Tag'') = [0x30BF, 0x30B0] @ js ''Tag''"
    by (simp add: tag_eval)
  have e5: "formatSingleTag (\<lambda>c. [c]) ([0x30BF, 0x30B0] @ js '' Tag'') = js ''tag''"
    unfolding formatSingleTag_latin[OF n5] t5 by (simp add: tag_eval)
  show ?thesis using e1 e2 k s3 e3 s4 e4 s5 e5 by simp
qed

subsection \<open>Language detection\<close>

lemma normalizeText_eq:
  "normalizeText lc body =
     filter (\<lambda>c. isWordChar c \<or> isSpace c \<or> isHan c \<or> isKana c
                  \<or> (0x0100 \<le> c \<and> c \<le> 0x017F) \<or> (0x00C0 \<le> c \<and> c \<le> 0x00FF))
            (toLowerCase lc body)"
  by (simp add: normalizeText_def replaceAll_Chr_delete)

text \<open>
  Claim C8. Whenever more than one tenth of the normalised text (the lower-cased body
  without the characters the normalisation drops) is Han characters, \<open>detectLanguage\<close>
  returns \<open>zh\<close>, whatever the stop-word scores of the text would be: the ratio is tested
  first and the scoring stage is not reached.
\<close>

theorem detectLanguage_han_ratio:
  assumes "real (length (filter isHan (normalizeText lc body)))
             / real (length (normalizeText lc body)) > 1 / 10"
  shows "detectLanguage lc body = js ''zh''"
proof -
  have "length (normalizeText lc body) \<noteq> 0" using assms by auto
  then have "ratioAbove (countMatches (Chr isHan) (normalizeText lc body))
               (length (normalizeText lc body)) (1 / 10)"
    using assms by (simp add: ratioAbove_def countMatches_Chr)
  then show ?thesis by (simp add: detectLanguage_def Let_def)
qed

theorem detectLanguage_han_ratio_witness:
  "real (length (filter isHan (normalizeText (\<lambda>c. [c]) ([0x6211, 0x4EEC] @ js '' the and of''))))
     / real (length (normalizeText (\<lambda>c. [c]) ([0x6211, 0x4EEC] @ js '' the and of''))) > 1 / 10
   \<and> detectLanguage (\<lambda>c. [c]) ([0x6211, 0x4EEC] @ js '' the and of'') = js ''zh''"
proof -
  have n: "normalizeText (\<lambda>c. [c]) ([0x6211, 0x4EEC] @ js '' the and of'')
             = [0x6211, 0x4EEC] @ js '' the and of''"
    by (simp add: normalizeText_eq tag_eval)
  have r: "real (length (filter isHan (normalizeText (\<lambda>c. [c]) ([0x6211, 0x4EEC] @ js '' the and of''))))
     / real (length (normalizeText (\<lambda>c. [c]) ([0x6211, 0x4EEC] @ js '' the and of''))) > 1 / 10"
    unfolding n by (simp add: js_def isHan_def)
  show ?thesis using r detectLanguage_han_ratio[OF r] by simp
qed

subsection \<open>The five-document batch in the sample environment\<close>










subsection \<open>Formatting twice\<close>
























end
